theory Spec2Isabelle
  imports Main "HOL-Library.Sublist" "HOL-Library.AList"
begin

section \<open>Strings and paths of the host runtime\<close>

text \<open>
  The extractor is a Node.js class (\<open>DependencyExtractor\<close>). Its own methods are embedded
  below, one definition per method, under the method's name. What it calls in the host
  runtime is modelled here for POSIX (\<open>path.sep = "/"\<close>): strings are \<open>char list\<close>,
  \<open>startsWith\<close> is \<open>prefix\<close>, \<open>endsWith\<close> is \<open>suffix\<close>, \<open>substring(n)\<close> is \<open>drop n\<close>.
\<close>

text \<open>\<open>s.split(c)\<close> for a one-character separator: never empty, \<open>"".split(c) = [""]\<close>.\<close>

fun split_sep :: "char \<Rightarrow> string \<Rightarrow> string list" where
  "split_sep c [] = [[]]"
| "split_sep c (x # xs) =
     (if x = c then [] # split_sep c xs
      else (case split_sep c xs of
              [] \<Rightarrow> [[x]]
            | s # ss \<Rightarrow> (x # s) # ss))"

text \<open>\<open>parts.join(sep)\<close>.\<close>

fun join_sep :: "string \<Rightarrow> string list \<Rightarrow> string" where
  "join_sep sep [] = []"
| "join_sep sep [s] = s"
| "join_sep sep (s # t # ss) = s @ sep @ join_sep sep (t # ss)"

text \<open>
  \<open>normalizeString\<close> of Node's \<open>path\<close> module, on the segments of the path: empty
  segments and \<open>.\<close> are dropped, \<open>..\<close> removes the segment before it (and is kept only
  when the path may climb above its start). The accumulator holds the result reversed.
\<close>

fun normalizeSegs :: "bool \<Rightarrow> string list \<Rightarrow> string list \<Rightarrow> string list" where
  "normalizeSegs climb acc [] = rev acc"
| "normalizeSegs climb acc (s # ss) =
     (if s = [] \<or> s = ''.'' then normalizeSegs climb acc ss
      else if s = ''..'' then
        (case acc of
           [] \<Rightarrow> normalizeSegs climb (if climb then [s] else []) ss
         | a # as \<Rightarrow>
             if a = ''..'' then normalizeSegs climb (if climb then s # acc else acc) ss
             else normalizeSegs climb as ss)
      else normalizeSegs climb (s # acc) ss)"

definition normalizeString :: "string \<Rightarrow> bool \<Rightarrow> string" where
  "normalizeString p climb = join_sep ''/'' (normalizeSegs climb [] (split_sep CHR ''/'' p))"

text \<open>
  \<open>path.resolve(...args)\<close>: the arguments are read from the right until one is absolute;
  the working directory (always absolute) comes last.
\<close>

fun resolveArgs :: "string list \<Rightarrow> string \<Rightarrow> string \<times> bool" where
  "resolveArgs [] acc = (acc, False)"
| "resolveArgs (p # ps) acc =
     (if p = [] then resolveArgs ps acc
      else if hd p = CHR ''/'' then (p @ ''/'' @ acc, True)
      else resolveArgs ps (p @ ''/'' @ acc))"

definition path_resolve :: "string \<Rightarrow> string list \<Rightarrow> string" where
  "path_resolve wd args =
     (case resolveArgs (rev args) [] of
        (r, absolute) \<Rightarrow>
          ''/'' @ normalizeString (if absolute then r else wd @ ''/'' @ r) False)"

definition path_normalize :: "string \<Rightarrow> string" where
  "path_normalize p =
     (if p = [] then ''.''
      else
        let isAbsolute = (hd p = CHR ''/'');
            trailing = (last p = CHR ''/'');
            q = normalizeString p (\<not> isAbsolute)
        in if q = [] then (if isAbsolute then ''/'' else if trailing then ''./'' else ''.'')
           else (if isAbsolute then ''/'' else []) @ q @ (if trailing then ''/'' else []))"

definition path_join :: "string list \<Rightarrow> string" where
  "path_join args =
     (let joined = join_sep ''/'' (filter (\<lambda>a. a \<noteq> []) args)
      in if joined = [] then ''.'' else path_normalize joined)"

text \<open>
  \<open>path.dirname\<close>: trailing slashes are skipped, then the last segment; what is left of
  the slash before it is the result (the first character is never looked at).
\<close>

definition path_dirname :: "string \<Rightarrow> string" where
  "path_dirname p =
     (if p = [] then ''.''
      else
        let hasRoot = (hd p = CHR ''/'');
            r = dropWhile (\<lambda>c. c \<noteq> CHR ''/'') (dropWhile (\<lambda>c. c = CHR ''/'') (rev (tl p)))
        in if r = [] then (if hasRoot then ''/'' else ''.'')
           else if hasRoot \<and> length r = 1 then ''//''
           else take (length r) p)"

fun dropCommon :: "string list \<Rightarrow> string list \<Rightarrow> string list \<times> string list" where
  "dropCommon (a # as) (b # bs) = (if a = b then dropCommon as bs else (a # as, b # bs))"
| "dropCommon as bs = (as, bs)"

definition path_segments :: "string \<Rightarrow> string list" where
  "path_segments p = filter (\<lambda>s. s \<noteq> []) (split_sep CHR ''/'' p)"

text \<open>\<open>path.relative(from, to)\<close>: both are resolved, the common directories dropped.\<close>

definition path_relative :: "string \<Rightarrow> string \<Rightarrow> string \<Rightarrow> string" where
  "path_relative wd from to =
     (case dropCommon (path_segments (path_resolve wd [from])) (path_segments (path_resolve wd [to])) of
        (up, down) \<Rightarrow> join_sep ''/'' (replicate (length up) ''..'' @ down))"

definition path_basename :: "string \<Rightarrow> string" where
  "path_basename p = (case rev (path_segments p) of [] \<Rightarrow> [] | b # _ \<Rightarrow> b)"

text \<open>\<open>path.extname\<close>: from the last dot of the last segment, unless that dot starts it.\<close>

definition path_extname :: "string \<Rightarrow> string" where
  "path_extname p =
     (let b = path_basename p;
          afterDot = takeWhile (\<lambda>c. c \<noteq> CHR ''.'') (rev b)
      in if length afterDot = length b \<or> Suc (length afterDot) = length b \<or> b = ''..'' then []
         else drop (length b - Suc (length afterDot)) b)"

definition toLowerCase :: "string \<Rightarrow> string" where
  "toLowerCase s =
     map (\<lambda>c. let n = (of_char c :: nat)
              in if 65 \<le> n \<and> n \<le> 90 then char_of (n + 32) else c) s"

definition isSpace :: "char \<Rightarrow> bool" where
  "isSpace c = (c \<in> set [CHR '' '', CHR 0x09, CHR 0x0A, CHR 0x0B, CHR 0x0C, CHR 0x0D, CHR 0xA0])"

definition trim :: "string \<Rightarrow> string" where
  "trim s = rev (dropWhile isSpace (rev (dropWhile isSpace s)))"

text \<open>A JavaScript \<open>Set\<close> of strings keeps insertion order: a list without repetition.\<close>

definition set_add :: "string \<Rightarrow> string list \<Rightarrow> string list" where
  "set_add x s = (if x \<in> set s then s else s @ [x])"

section \<open>The file system and the module loader\<close>

record fsEntry =
  isFile :: bool
  fileSize :: nat
  readFile :: "string + string"

text \<open>
  \<open>readFile\<close> is what \<open>fs.readFileSync(p, "utf-8")\<close> does: \<open>Inr\<close> the text, \<open>Inl\<close> the
  message of the error it throws (as it does on a directory).
\<close>

text \<open>The seven regular expressions of \<open>extractImportsFromLine\<close>, in its order.\<close>

datatype importPattern =
  ES6Import | TypeImport | SideEffect | DynamicImport | ReExport | CommonJSAssign | DirectRequire

text \<open>
  The host the extractor runs on: the working directory, the file system,
  \<open>require.resolve(request, {paths: [dir]})\<close> (\<open>None\<close> when it throws), and the regular
  expression engine: \<open>regexMatches pat line\<close> is the first capture group of every
  successive match of one of the seven patterns on a line, and \<open>scriptRegions\<close> the same
  for the \<open><script>\<close> pattern on a Svelte file.
\<close>

record env =
  cwd :: string
  files :: "(string \<times> fsEntry) list"
  requireResolve :: "string \<Rightarrow> string option \<Rightarrow> string option"
  regexMatches :: "importPattern \<Rightarrow> string \<Rightarrow> string list"
  scriptRegions :: "string \<Rightarrow> string list"

definition existsSync :: "env \<Rightarrow> string \<Rightarrow> bool" where
  "existsSync e p = (map_of (files e) p \<noteq> None)"

definition statIsFile :: "env \<Rightarrow> string \<Rightarrow> bool" where
  "statIsFile e p = (case map_of (files e) p of None \<Rightarrow> False | Some f \<Rightarrow> isFile f)"

section \<open>Configuration and state of a DependencyExtractor\<close>

datatype limit = Finite int | Infinity

text \<open>
  The constructor's options; \<open>None\<close> is an option left out. \<open>options.x || default\<close>
  takes the default for every falsy value: a depth of 0, an empty root, a length of 0.
\<close>

record options =
  opt_maxDepth :: "limit option"
  opt_rootDir :: "string option"
  opt_includeExternal :: "bool option"
  opt_maxContentLength :: "nat option"
  opt_extensions :: "string list option"
  opt_excludePatterns :: "(string \<Rightarrow> bool) list option"
  opt_svelteAliases :: "(string \<times> string) list option"

record config =
  maxDepth :: limit
  includeExternal :: bool
  maxContentLength :: nat
  extensions :: "string list"
  excludePatterns :: "(string \<Rightarrow> bool) list"
  svelteAliases :: "(string \<times> string) list"

definition contains :: "string \<Rightarrow> string \<Rightarrow> bool" where
  "contains pat s = sublist pat s"

definition default_extensions :: "string list" where
  "default_extensions =
     [''.ts'', ''.tsx'', ''.js'', ''.jsx'', ''.json'', ''.mjs'', ''.cjs'', ''.d.ts'', ''.svelte'']"

text \<open>Each exclude pattern is the \<open>test\<close> of a regular expression without flags.\<close>

definition default_excludePatterns :: "(string \<Rightarrow> bool) list" where
  "default_excludePatterns =
     [contains ''node_modules'', suffix ''.d.ts'', suffix ''.spec.ts'', suffix ''.test.ts'',
      suffix ''.spec.js'', suffix ''.test.js'', contains ''dist/'', contains ''build/'',
      contains ''coverage/'', contains ''.git/'', contains ''.vscode/'', contains ''.idea/'']"

definition default_svelteAliases :: "(string \<times> string) list" where
  "default_svelteAliases =
     [(''$lib'', ''src/lib''), (''$app'', ''@sveltejs/kit''), (''$env'', ''@sveltejs/kit''),
      (''$service-worker'', ''@sveltejs/kit'')]"

definition mkConfig :: "options \<Rightarrow> config" where
  "mkConfig opts =
     \<lparr> maxDepth = (case opt_maxDepth opts of
                     None \<Rightarrow> Infinity
                   | Some (Finite n) \<Rightarrow> if n = 0 then Infinity else Finite n
                   | Some Infinity \<Rightarrow> Infinity),
       includeExternal = (case opt_includeExternal opts of None \<Rightarrow> False | Some b \<Rightarrow> b),
       maxContentLength = (case opt_maxContentLength opts of
                     None \<Rightarrow> 100000
                   | Some n \<Rightarrow> if n = 0 then 100000 else n),
       extensions = (case opt_extensions opts of None \<Rightarrow> default_extensions | Some es \<Rightarrow> es),
       excludePatterns =
         (case opt_excludePatterns opts of None \<Rightarrow> default_excludePatterns | Some ps \<Rightarrow> ps),
       svelteAliases =
         (case opt_svelteAliases opts of None \<Rightarrow> default_svelteAliases | Some al \<Rightarrow> al) \<rparr>"

section \<open>Path resolution\<close>

definition shouldExclude :: "config \<Rightarrow> string \<Rightarrow> bool" where
  "shouldExclude cfg filePath = list_ex (\<lambda>pattern. pattern filePath) (excludePatterns cfg)"

text \<open>The two \<open>for (const ext of this.extensions)\<close> loops: the first candidate that exists
  and is not excluded is returned.\<close>

fun firstAccepted :: "env \<Rightarrow> config \<Rightarrow> string list \<Rightarrow> string option" where
  "firstAccepted e cfg [] = None"
| "firstAccepted e cfg (p # ps) =
     (if existsSync e p \<and> \<not> shouldExclude cfg p then Some p else firstAccepted e cfg ps)"

text \<open>\<open>basePath + ext\<close> and \<open>path.join(basePath, `index${ext}`)\<close> for every configured
  extension, in the configured order.\<close>

definition withExtensions :: "config \<Rightarrow> string \<Rightarrow> string list" where
  "withExtensions cfg basePath = map (\<lambda>ext. basePath @ ext) (extensions cfg)"

definition indexFiles :: "config \<Rightarrow> string \<Rightarrow> string list" where
  "indexFiles cfg basePath = map (\<lambda>ext. path_join [basePath, ''index'' @ ext]) (extensions cfg)"

definition tryResolveWithExtensions :: "env \<Rightarrow> config \<Rightarrow> string \<Rightarrow> string option" where
  "tryResolveWithExtensions e cfg basePath =
     (if existsSync e basePath \<and> \<not> shouldExclude cfg basePath \<and> statIsFile e basePath
      then Some basePath
      else (case firstAccepted e cfg (withExtensions cfg basePath) of
              Some withExt \<Rightarrow> Some withExt
            | None \<Rightarrow> firstAccepted e cfg (indexFiles cfg basePath)))"

definition isSvelteAlias :: "config \<Rightarrow> string \<Rightarrow> bool" where
  "isSvelteAlias cfg importPath =
     list_ex (\<lambda>alias. prefix alias importPath) (map fst (svelteAliases cfg))"

text \<open>The loop of \<open>resolveSvelteAlias\<close> over \<open>Object.entries(this.svelteAliases)\<close>; the
  first entry whose key starts the specifier returns.\<close>

fun resolveSvelteAliasLoop ::
  "env \<Rightarrow> config \<Rightarrow> string \<Rightarrow> string \<Rightarrow> (string \<times> string) list \<Rightarrow> string option" where
  "resolveSvelteAliasLoop e cfg root importPath [] = None"
| "resolveSvelteAliasLoop e cfg root importPath ((alias, target) # rest) =
     (if prefix alias importPath then
        (if prefix ''@sveltejs/kit'' target then
           (if includeExternal cfg then requireResolve e target None else None)
         else
           tryResolveWithExtensions e cfg
             (path_resolve (cwd e) [root, target @ drop (length alias) importPath]))
      else resolveSvelteAliasLoop e cfg root importPath rest)"

definition resolveSvelteAlias :: "env \<Rightarrow> config \<Rightarrow> string \<Rightarrow> string \<Rightarrow> string option" where
  "resolveSvelteAlias e cfg root importPath =
     resolveSvelteAliasLoop e cfg root importPath (svelteAliases cfg)"

definition projectPrefixes :: "string list" where
  "projectPrefixes =
     [''src/'', ''app/'', ''lib/'', ''libs/'', ''packages/'', ''modules/'', ''components/'',
      ''services/'', ''utils/'', ''helpers/'', ''shared/'', ''core/'', ''common/'', ''config/'',
      ''assets/'', ''styles/'', ''types/'', ''interfaces/'', ''models/'', ''entities/'',
      ''dtos/'', ''guards/'', ''middleware/'', ''decorators/'', ''pipes/'', ''filters/'',
      ''interceptors/'', ''controllers/'', ''providers/'', ''repositories/'', ''schemas/'']"

definition isProjectAbsoluteImport :: "string \<Rightarrow> bool" where
  "isProjectAbsoluteImport importPath =
     list_ex (\<lambda>pre. prefix pre importPath) projectPrefixes"

text \<open>A value used as a condition: \<open>null\<close> and the empty string are falsy.\<close>

definition truthy :: "string option \<Rightarrow> bool" where
  "truthy r = (case r of None \<Rightarrow> False | Some s \<Rightarrow> s \<noteq> [])"

definition possibleRoots :: "string \<Rightarrow> string list" where
  "possibleRoots root =
     [root, path_join [root, ''app''], path_join [root, ''src''], path_join [root, ''..''],
      path_join [root, ''../app''], path_dirname root]"

fun resolveProjectAbsoluteLoop ::
  "env \<Rightarrow> config \<Rightarrow> string \<Rightarrow> string list \<Rightarrow> string option" where
  "resolveProjectAbsoluteLoop e cfg importPath [] = None"
| "resolveProjectAbsoluteLoop e cfg importPath (r # rs) =
     (if existsSync e r then
        (let resolved = tryResolveWithExtensions e cfg (path_resolve (cwd e) [r, importPath])
         in if truthy resolved then resolved
            else resolveProjectAbsoluteLoop e cfg importPath rs)
      else resolveProjectAbsoluteLoop e cfg importPath rs)"

definition resolveProjectAbsoluteImport ::
  "env \<Rightarrow> config \<Rightarrow> string \<Rightarrow> string \<Rightarrow> string option" where
  "resolveProjectAbsoluteImport e cfg root importPath =
     resolveProjectAbsoluteLoop e cfg importPath (possibleRoots root)"

definition resolveRelativeImport :: "env \<Rightarrow> config \<Rightarrow> string \<Rightarrow> string \<Rightarrow> string option" where
  "resolveRelativeImport e cfg importPath fromFile =
     tryResolveWithExtensions e cfg (path_resolve (cwd e) [path_dirname fromFile, importPath])"

definition isRelativeImport :: "string \<Rightarrow> bool" where
  "isRelativeImport importPath = (prefix ''.'' importPath \<or> prefix ''/'' importPath)"

definition resolveExternal :: "env \<Rightarrow> config \<Rightarrow> string \<Rightarrow> string \<Rightarrow> string option" where
  "resolveExternal e cfg importPath fromFile =
     (if \<not> includeExternal cfg then None
      else requireResolve e importPath (Some (path_dirname fromFile)))"

definition resolveImportPath ::
  "env \<Rightarrow> config \<Rightarrow> string \<Rightarrow> string \<Rightarrow> string \<Rightarrow> string option" where
  "resolveImportPath e cfg root importPath fromFile =
     (if isSvelteAlias cfg importPath then resolveSvelteAlias e cfg root importPath
      else if isProjectAbsoluteImport importPath then
        resolveProjectAbsoluteImport e cfg root importPath
      else if isRelativeImport importPath then resolveRelativeImport e cfg importPath fromFile
      else resolveExternal e cfg importPath fromFile)"

section \<open>Project root detection\<close>

definition indicators :: "string list" where
  "indicators =
     [''package.json'', ''svelte.config.js'', ''vite.config.js'', ''tsconfig.json'',
      ''angular.json'', ''next.config.js'', ''webpack.config.js'', ''.git'', ''yarn.lock'',
      ''package-lock.json'']"

text \<open>How far a directory is from the end of the upward walk: \<open>path.dirname\<close> shortens
  every path but \<open>.\<close> and \<open>/\<close>, which it leaves alone.\<close>

definition walkMeasure :: "string \<Rightarrow> nat" where
  "walkMeasure p =
     (if p = ''.'' \<or> p = ''/'' then 0 else if p = ''//'' then 1 else length p + 2)"

lemma length_dropWhile_twice:
  assumes "dropWhile (\<lambda>c. c \<noteq> s) (dropWhile (\<lambda>c. c = s) xs) \<noteq> []"
  shows "length (dropWhile (\<lambda>c. c \<noteq> s) (dropWhile (\<lambda>c. c = s) xs)) < length xs"
proof -
  let ?ys = "dropWhile (\<lambda>c. c = s) xs"
  from assms have ne: "?ys \<noteq> []" by (metis dropWhile.simps(1))
  then have "hd ?ys \<noteq> s" using hd_dropWhile [of "\<lambda>c. c = s" xs] by simp
  with ne have "dropWhile (\<lambda>c. c \<noteq> s) ?ys = dropWhile (\<lambda>c. c \<noteq> s) (tl ?ys)"
    by (cases ?ys) auto
  moreover have "length (dropWhile (\<lambda>c. c \<noteq> s) (tl ?ys)) \<le> length (tl ?ys)"
    by (rule length_dropWhile_le)
  moreover from ne have "length (tl ?ys) < length ?ys" by simp
  moreover have "length ?ys \<le> length xs" by (rule length_dropWhile_le)
  ultimately show ?thesis by simp
qed

lemma walkMeasure_le: "walkMeasure q \<le> length q + 2"
  by (simp add: walkMeasure_def)

lemma path_dirname_nonempty:
  "p \<noteq> [] \<Longrightarrow>
   r = dropWhile (\<lambda>c. c \<noteq> CHR ''/'') (dropWhile (\<lambda>c. c = CHR ''/'') (rev (tl p))) \<Longrightarrow>
   path_dirname p =
     (if r = [] then (if hd p = CHR ''/'' then ''/'' else ''.'')
      else if hd p = CHR ''/'' \<and> length r = 1 then ''//''
      else take (length r) p)"
  by (simp only: path_dirname_def Let_def if_False)

lemma walkMeasure_dirname:
  assumes "p \<noteq> path_dirname p"
  shows "walkMeasure (path_dirname p) < walkMeasure p"
proof (cases "p = []")
  case True
  have "path_dirname [] = ''.''" by (simp add: path_dirname_def)
  with True show ?thesis by (simp add: walkMeasure_def)
next
  case False
  define r where "r = dropWhile (\<lambda>c. c \<noteq> CHR ''/'') (dropWhile (\<lambda>c. c = CHR ''/'') (rev (tl p)))"
  note dn = path_dirname_nonempty [OF False r_def]
  show ?thesis
  proof (cases "r = []")
    case True
    show ?thesis
    proof (cases "hd p = CHR ''/''")
      case True
      with \<open>r = []\<close> dn have d: "path_dirname p = ''/''" by simp
      with assms have "p \<noteq> ''/''" by simp
      then have "walkMeasure p > 0" using True by (auto simp: walkMeasure_def)
      moreover have "walkMeasure ''/'' = 0" by (simp add: walkMeasure_def)
      ultimately show ?thesis using d by simp
    next
      case nr: False
      with \<open>r = []\<close> dn have d: "path_dirname p = ''.''" by simp
      with assms have "p \<noteq> ''.''" by simp
      then have "walkMeasure p > 0" using nr by (auto simp: walkMeasure_def)
      moreover have "walkMeasure ''.'' = 0" by (simp add: walkMeasure_def)
      ultimately show ?thesis using d by simp
    qed
  next
    case ne: False
    from ne have "length r < length (rev (tl p))"
      unfolding r_def by (rule length_dropWhile_twice)
    then have "length r + 1 \<le> length (tl p)" by simp
    with False have len: "length r + 2 \<le> length p" by (cases p) simp_all
    from ne have "length r \<ge> 1" by (cases r) simp_all
    with len have "length p \<ge> 3" by simp
    then have "p \<noteq> ''.''" "p \<noteq> ''/''" "p \<noteq> ''//''" by auto
    then have big: "walkMeasure p = length p + 2"
      by (simp add: walkMeasure_def)
    show ?thesis
    proof (cases "hd p = CHR ''/'' \<and> length r = 1")
      case True
      with ne dn have "path_dirname p = ''//''" by simp
      moreover have "walkMeasure ''//'' = 1" by (simp add: walkMeasure_def)
      ultimately show ?thesis using big by simp
    next
      case nt: False
      with ne dn have "path_dirname p = take (length r) p" by auto
      moreover have "walkMeasure (take (length r) p) \<le> length (take (length r) p) + 2"
        by (rule walkMeasure_le)
      ultimately show ?thesis using big len by simp
    qed
  qed
qed

text \<open>The \<open>while (currentDir !== path.dirname(currentDir))\<close> loop: the first directory,
  walking up, that holds one of the indicator files; \<open>None\<close> when the walk ends without.\<close>

function walkUp :: "env \<Rightarrow> string \<Rightarrow> string option" where
  "walkUp e currentDir =
     (if currentDir = path_dirname currentDir then None
      else if list_ex (\<lambda>indicator. existsSync e (path_join [currentDir, indicator])) indicators
      then Some currentDir
      else walkUp e (path_dirname currentDir))"
  by pat_completeness auto
termination
  by (relation "measure (\<lambda>(e, p). walkMeasure p)") (simp_all add: walkMeasure_dirname)

text \<open>\<open>parts.findIndex(pred)\<close>; \<open>None\<close> is \<open>-1\<close>.\<close>

fun findIndex :: "('a \<Rightarrow> bool) \<Rightarrow> 'a list \<Rightarrow> nat option" where
  "findIndex P [] = None"
| "findIndex P (x # xs) = (if P x then Some 0 else map_option Suc (findIndex P xs))"

definition indexAbove :: "nat \<Rightarrow> nat option \<Rightarrow> bool" where
  "indexAbove k i = (case i of None \<Rightarrow> False | Some n \<Rightarrow> k < n)"

text \<open>\<open>autoDetectProjectRoot\<close> returns the new \<open>this.rootDir\<close> (the old one when nothing
  is found).\<close>

definition autoDetectProjectRoot :: "env \<Rightarrow> string \<Rightarrow> string \<Rightarrow> string" where
  "autoDetectProjectRoot e root filePath =
     (let resolvedFilePath = path_resolve (cwd e) [filePath];
          fileDir = path_dirname resolvedFilePath
      in case walkUp e fileDir of
           Some dir \<Rightarrow> dir
         | None \<Rightarrow>
             let pathParts = split_sep CHR ''/'' resolvedFilePath;
                 srcIndex = findIndex (\<lambda>part. part = ''src'') pathParts;
                 appIndex = findIndex (\<lambda>part. part = ''app'') pathParts;
                 routesIndex = findIndex (\<lambda>part. part = ''routes'') pathParts
             in if indexAbove 0 srcIndex then join_sep ''/'' (take (the srcIndex) pathParts)
                else if indexAbove 0 appIndex
                then join_sep ''/'' (take (the appIndex + 1) pathParts)
                else if indexAbove 1 routesIndex
                then join_sep ''/'' (take (the routesIndex - 1) pathParts)
                else root)"

section \<open>Import extraction\<close>

text \<open>\<open>Array.from(new Set(xs))\<close>: the first occurrence of each element, in order.\<close>

definition uniqueInOrder :: "string list \<Rightarrow> string list" where
  "uniqueInOrder xs = rev (remdups (rev xs))"

definition isValidImportPath :: "string \<Rightarrow> bool" where
  "isValidImportPath importPath =
     (importPath \<noteq> [] \<and> \<not> prefix ''http'' importPath \<and> \<not> prefix ''//'' importPath
      \<and> CHR ''?'' \<notin> set importPath \<and> CHR ''#'' \<notin> set importPath
      \<and> \<not> list_all isSpace importPath \<and> \<not> contains ''${'' importPath
      \<and> CHR 0x60 \<notin> set importPath \<and> \<not> prefix ''data:'' importPath)"

definition importPatterns :: "importPattern list" where
  "importPatterns =
     [ES6Import, TypeImport, SideEffect, DynamicImport, ReExport, CommonJSAssign, DirectRequire]"

text \<open>\<open>extractImportsFromLine\<close>: pattern by pattern, every match whose captured path is
  valid.\<close>

definition extractImportsFromLine :: "env \<Rightarrow> string \<Rightarrow> string list" where
  "extractImportsFromLine e line =
     concat (map (\<lambda>pat. filter isValidImportPath (regexMatches e pat line)) importPatterns)"

text \<open>\<open>extractScriptFromSvelte\<close>: \<open>scriptContent || content\<close>.\<close>

definition extractScriptFromSvelte :: "env \<Rightarrow> string \<Rightarrow> string" where
  "extractScriptFromSvelte e content =
     (let scriptContent = concat (map (\<lambda>m. m @ [CHR 0x0A]) (scriptRegions e content))
      in if scriptContent = [] then content else scriptContent)"

text \<open>
  \<open>parseImports\<close>: the lines of the text (of its script regions, for a Svelte file),
  trimmed; blank lines and comment lines skipped; what the line scanner finds on the
  others, without repetition.
\<close>

definition parseImports :: "env \<Rightarrow> string \<Rightarrow> string \<Rightarrow> string list" where
  "parseImports e content fileName =
     (if content = [] then []
      else
        let text = (if suffix ''.svelte'' fileName then extractScriptFromSvelte e content
                    else content);
            lines = map trim (split_sep CHR 0x0A text);
            kept = filter (\<lambda>line. \<not> (line = [] \<or> prefix ''//'' line \<or> prefix ''/*'' line
                                        \<or> prefix ''*'' line)) lines
        in uniqueInOrder (concat (map (extractImportsFromLine e) kept)))"

section \<open>File information and content gating\<close>

datatype skipReason = BinaryFile | FileTooLarge nat nat | ReadError string

record fileInfo =
  fi_size :: nat
  fi_content :: string
  fi_isText :: bool
  fi_skipReason :: "skipReason option"
  fi_error :: "string option"

definition binaryExtensions :: "string list" where
  "binaryExtensions =
     [''.png'', ''.jpg'', ''.jpeg'', ''.gif'', ''.bmp'', ''.ico'', ''.svg'', ''.pdf'', ''.zip'',
      ''.tar'', ''.gz'', ''.rar'', ''.7z'', ''.exe'', ''.dll'', ''.so'', ''.dylib'', ''.woff'',
      ''.woff2'', ''.ttf'', ''.eot'', ''.mp3'', ''.mp4'', ''.avi'', ''.mov'', ''.webm'',
      ''.node'', ''.bin'', ''.lock'']"

definition isBinaryFile :: "string \<Rightarrow> bool" where
  "isBinaryFile filePath = (toLowerCase (path_extname filePath) \<in> set binaryExtensions)"

text \<open>\<open>getFileInfo\<close>; the first case is \<open>fs.statSync\<close> throwing on a missing path. The
  skip reason keeps the two sizes of "File too large" instead of their formatted text,
  and the message of a read error without the words "Read error: " before it.\<close>

definition getFileInfo :: "env \<Rightarrow> config \<Rightarrow> string \<Rightarrow> fileInfo" where
  "getFileInfo e cfg filePath =
     (case map_of (files e) filePath of
        None \<Rightarrow>
          \<lparr> fi_size = 0, fi_content = [], fi_isText = False, fi_skipReason = None,
            fi_error = Some (''ENOENT: no such file or directory, stat ''
                            @ [CHR 0x27] @ filePath @ [CHR 0x27]) \<rparr>
      | Some f \<Rightarrow>
          if isBinaryFile filePath then
            \<lparr> fi_size = fileSize f, fi_content = [], fi_isText = False,
              fi_skipReason = Some BinaryFile, fi_error = None \<rparr>
          else if fileSize f > maxContentLength cfg * 4 then
            \<lparr> fi_size = fileSize f, fi_content = [], fi_isText = False,
              fi_skipReason = Some (FileTooLarge (fileSize f) (maxContentLength cfg * 4)),
              fi_error = None \<rparr>
          else
            (case readFile f of
               Inr text \<Rightarrow>
                 \<lparr> fi_size = fileSize f, fi_content = text, fi_isText = True,
                   fi_skipReason = None, fi_error = None \<rparr>
             | Inl message \<Rightarrow>
                 \<lparr> fi_size = fileSize f, fi_content = [], fi_isText = False,
                   fi_skipReason = Some (ReadError message), fi_error = None \<rparr>))"

section \<open>The dependency tree\<close>

text \<open>
  A node of the tree is a JavaScript object; a field the object does not have is \<open>None\<close>
  here, and the flags \<open>circular\<close> and \<open>external\<close>, which are only ever absent or
  \<open>true\<close>, are \<open>False\<close> when absent.
\<close>

record nodeInfo =
  path :: string
  absolutePath :: "string option"
  fileExists :: "bool option"
  error :: "string option"
  circular :: bool
  external :: bool
  depth :: nat
  originalImport :: "string option"
  nodeSize :: "nat option"
  importCount :: "nat option"
  skipReason :: "skipReason option"
  content :: "string option"
  isText :: "bool option"

datatype fileNode = FileNode (info: nodeInfo) (dependencies: "fileNode list")

definition emptyInfo :: nodeInfo where
  "emptyInfo =
     \<lparr> path = [], absolutePath = None, fileExists = None, error = None, circular = False,
       external = False, depth = 0, originalImport = None, nodeSize = None,
       importCount = None, skipReason = None, content = None, isText = None \<rparr>"

text \<open>The leaf returned for a path already visited at this depth or above it.\<close>

definition circularLeaf :: "string \<Rightarrow> string \<Rightarrow> nat \<Rightarrow> fileNode" where
  "circularLeaf relativePath resolvedPath d =
     FileNode (emptyInfo\<lparr> path := relativePath, absolutePath := Some resolvedPath,
                          circular := True, depth := d \<rparr>) []"

definition notFoundNode :: "string \<Rightarrow> string \<Rightarrow> nat \<Rightarrow> fileNode" where
  "notFoundNode relativePath resolvedPath d =
     FileNode (emptyInfo\<lparr> path := relativePath, absolutePath := Some resolvedPath,
                          fileExists := Some False, error := Some ''File not found'',
                          depth := d \<rparr>) []"

text \<open>The leaf the import loop pushes for a resolved path that is in the visited table.\<close>

definition circularDependency :: "string \<Rightarrow> string \<Rightarrow> string \<Rightarrow> nat \<Rightarrow> fileNode" where
  "circularDependency relativeImport resolvedImport importPath d =
     FileNode (emptyInfo\<lparr> path := relativeImport, absolutePath := Some resolvedImport,
                          originalImport := Some importPath, circular := True,
                          depth := d \<rparr>) []"

definition externalLeaf :: "string \<Rightarrow> nat \<Rightarrow> fileNode" where
  "externalLeaf importPath d =
     FileNode (emptyInfo\<lparr> path := importPath, absolutePath := None,
                          originalImport := Some importPath, external := True,
                          depth := d \<rparr>) []"

definition fileResult ::
  "string \<Rightarrow> string \<Rightarrow> nat \<Rightarrow> fileInfo \<Rightarrow> nat \<Rightarrow> fileNode list \<Rightarrow> fileNode" where
  "fileResult relativePath resolvedPath d fileInfo nImports deps =
     FileNode (emptyInfo\<lparr> path := relativePath, absolutePath := Some resolvedPath,
                          fileExists := Some True, depth := d,
                          nodeSize := Some (fi_size fileInfo),
                          importCount := Some nImports,
                          skipReason := fi_skipReason fileInfo,
                          content := Some (fi_content fileInfo),
                          isText := Some (fi_isText fileInfo) \<rparr>) deps"

text \<open>\<open>{...childTree, originalImport: importPath}\<close>.\<close>

definition withOriginalImport :: "string \<Rightarrow> fileNode \<Rightarrow> fileNode" where
  "withOriginalImport importPath child =
     FileNode ((info child)\<lparr> originalImport := Some importPath \<rparr>) (dependencies child)"

section \<open>The extractor's state and the traversal\<close>

text \<open>
  The mutable fields of a \<open>DependencyExtractor\<close>. \<open>visited\<close> and \<open>allFiles\<close> are
  JavaScript \<open>Map\<close>s, kept as association lists in insertion order; \<open>circularDeps\<close> and
  \<open>unresolved\<close> are \<open>Set\<close>s.
\<close>

record extractor =
  rootDir :: string
  visited :: "(string \<times> nat) list"
  circularDeps :: "string list"
  allFiles :: "(string \<times> fileNode) list"
  unresolved :: "string list"

definition newExtractor :: "env \<Rightarrow> options \<Rightarrow> extractor" where
  "newExtractor e opts =
     \<lparr> rootDir = (case opt_rootDir opts of
                    None \<Rightarrow> cwd e
                  | Some r \<Rightarrow> if r = [] then cwd e else r),
       visited = [], circularDeps = [], allFiles = [], unresolved = [] \<rparr>"

definition exceeds :: "nat \<Rightarrow> limit \<Rightarrow> bool" where
  "exceeds d lim = (case lim of Infinity \<Rightarrow> False | Finite m \<Rightarrow> m < int d)"

text \<open>\<open>existing && existing.depth <= currentDepth\<close>.\<close>

definition visitedAtOrAbove :: "extractor \<Rightarrow> string \<Rightarrow> nat \<Rightarrow> bool" where
  "visitedAtOrAbove st p d =
     (case map_of (visited st) p of None \<Rightarrow> False | Some seen \<Rightarrow> seen \<le> d)"

text \<open>\<open>this.visited.has(p)\<close>.\<close>

definition visitedHas :: "extractor \<Rightarrow> string \<Rightarrow> bool" where
  "visitedHas st p = (map_of (visited st) p \<noteq> None)"

text \<open>
  The body of \<open>for (const importPath of imports)\<close> in \<open>extractDependencies\<close>. It works on
  the list \<open>dependencies\<close> and on the extractor; \<open>recurse\<close> is the recursive call
  \<open>this.extractDependencies(resolvedImport, currentDepth + 1)\<close>, whose result is \<open>None\<close>
  when the traversal below it has not returned.
\<close>

definition processImport ::
  "(extractor \<Rightarrow> string \<Rightarrow> nat \<Rightarrow> (fileNode option \<times> extractor) option) \<Rightarrow>
   env \<Rightarrow> config \<Rightarrow> string \<Rightarrow> string \<Rightarrow> nat \<Rightarrow> string \<Rightarrow>
   fileNode list \<times> extractor \<Rightarrow> (fileNode list \<times> extractor) option" where
  "processImport recurse e cfg resolvedPath relativePath currentDepth importPath acc =
     (case acc of (deps, st) \<Rightarrow>
        let resolvedImport = resolveImportPath e cfg (rootDir st) importPath resolvedPath
        in if truthy resolvedImport then
             (let target = the resolvedImport;
                  relativeImport = path_relative (cwd e) (rootDir st) target
              in if visitedHas st target then
                   Some (deps @ [circularDependency relativeImport target importPath
                                   (currentDepth + 1)],
                         st\<lparr> circularDeps :=
                               set_add (relativePath @ '' -> '' @ relativeImport)
                                 (circularDeps st) \<rparr>)
                 else
                   (case recurse st target (currentDepth + 1) of
                      None \<Rightarrow> None
                    | Some (None, st') \<Rightarrow> Some (deps, st')
                    | Some (Some childTree, st') \<Rightarrow>
                        Some (deps @ [withOriginalImport importPath childTree], st')))
           else if includeExternal cfg then
             Some (deps @ [externalLeaf importPath (currentDepth + 1)], st)
           else Some (deps, st\<lparr> unresolved := set_add importPath (unresolved st) \<rparr>))"

fun processImports ::
  "(extractor \<Rightarrow> string \<Rightarrow> nat \<Rightarrow> (fileNode option \<times> extractor) option) \<Rightarrow>
   env \<Rightarrow> config \<Rightarrow> string \<Rightarrow> string \<Rightarrow> nat \<Rightarrow> string list \<Rightarrow>
   fileNode list \<times> extractor \<Rightarrow> (fileNode list \<times> extractor) option" where
  "processImports recurse e cfg resolvedPath relativePath currentDepth [] acc = Some acc"
| "processImports recurse e cfg resolvedPath relativePath currentDepth (importPath # rest) acc =
     (case processImport recurse e cfg resolvedPath relativePath currentDepth importPath acc of
        None \<Rightarrow> None
      | Some acc' \<Rightarrow>
          processImports recurse e cfg resolvedPath relativePath currentDepth rest acc')"

text \<open>
  \<open>extractDependencies(filePath, currentDepth)\<close>. The source recurses without a bound of
  its own; the first argument bounds the nesting of the calls, and the result is \<open>None\<close>
  when the bound is reached. Otherwise the result is the node returned (\<open>None\<close> for
  \<open>null\<close>) and the extractor after the call.
\<close>

primrec extractDependencies ::
  "nat \<Rightarrow> env \<Rightarrow> config \<Rightarrow> extractor \<Rightarrow> string \<Rightarrow> nat \<Rightarrow>
   (fileNode option \<times> extractor) option" where
  "extractDependencies 0 e cfg st filePath currentDepth = None"
| "extractDependencies (Suc fuel) e cfg st filePath currentDepth =
     (let resolvedPath = path_resolve (cwd e) [filePath];
          relativePath = path_relative (cwd e) (rootDir st) resolvedPath
      in if exceeds currentDepth (maxDepth cfg) then Some (None, st)
         else if visitedAtOrAbove st resolvedPath currentDepth then
           Some (Some (circularLeaf relativePath resolvedPath currentDepth), st)
         else if \<not> existsSync e resolvedPath then
           Some (Some (notFoundNode relativePath resolvedPath currentDepth), st)
         else
           (let st1 = st\<lparr> visited := AList.update resolvedPath currentDepth (visited st) \<rparr>;
                fileInfo = getFileInfo e cfg resolvedPath;
                imports = parseImports e (fi_content fileInfo) relativePath
            in case processImports (extractDependencies fuel e cfg) e cfg resolvedPath
                      relativePath currentDepth imports ([], st1) of
                 None \<Rightarrow> None
               | Some (deps, st2) \<Rightarrow>
                   (let result = fileResult relativePath resolvedPath currentDepth fileInfo
                                   (length imports) deps
                    in Some (Some result,
                             st2\<lparr> allFiles := AList.update resolvedPath result (allFiles st2) \<rparr>))))"

declare extractDependencies.simps(2) [simp del]

datatype analyzeError = CouldNotAnalyze

text \<open>\<open>analyze(filePath)\<close>: \<open>Inl\<close> is the \<open>Error\<close> it throws.\<close>

definition analyze ::
  "nat \<Rightarrow> env \<Rightarrow> config \<Rightarrow> extractor \<Rightarrow> string \<Rightarrow>
   ((analyzeError + fileNode) \<times> extractor) option" where
  "analyze fuel e cfg st filePath =
     (let st0 = (if rootDir st = [] \<or> rootDir st = cwd e
                 then st\<lparr> rootDir := autoDetectProjectRoot e (rootDir st) filePath \<rparr>
                 else st)
      in case extractDependencies fuel e cfg st0 filePath 0 of
           None \<Rightarrow> None
         | Some (None, st') \<Rightarrow> Some (Inl CouldNotAnalyze, st')
         | Some (Some tree, st') \<Rightarrow> Some (Inr tree, st'))"

section \<open>The regular expressions of the import scanner\<close>

text \<open>
  The seven regular expressions are sequences of: a literal text; one character of a
  class; a class repeated at least \<open>n\<close> times, as often as possible (\<open>\s+\<close>, \<open>\s*\<close>,
  \<open>[^=]+\<close>); a class repeated as seldom as possible (\<open>[^'"]*?\<close>); the capture group, a
  class repeated at least once, as often as possible; and a choice of literal texts
  (\<open>const|let|var\<close>).
\<close>

datatype regexItem =
  Lit string | One "char \<Rightarrow> bool" | Greedy "char \<Rightarrow> bool" nat | Lazy "char \<Rightarrow> bool"
  | Capture "char \<Rightarrow> bool" | OneOf "string list"

text \<open>
  Matching backtracks as the engine of the runtime does: a repetition tries its longest
  run first (its shortest, when lazy) and gives characters back one at a time while the
  rest of the expression fails. The result of a match is the text captured and the text
  after the match.
\<close>

primrec greedyTry ::
  "(char \<Rightarrow> bool) \<Rightarrow> (string \<Rightarrow> 'a option) \<Rightarrow> string \<Rightarrow> nat \<Rightarrow> 'a option" where
  "greedyTry P k [] n = (if n = 0 then k [] else None)"
| "greedyTry P k (c # cs) n =
     (if P c then (case greedyTry P k cs (n - 1) of
                     Some r \<Rightarrow> Some r
                   | None \<Rightarrow> if n = 0 then k (c # cs) else None)
      else if n = 0 then k (c # cs) else None)"

primrec lazyTry :: "(char \<Rightarrow> bool) \<Rightarrow> (string \<Rightarrow> 'a option) \<Rightarrow> string \<Rightarrow> 'a option" where
  "lazyTry P k [] = k []"
| "lazyTry P k (c # cs) =
     (case k (c # cs) of
        Some r \<Rightarrow> Some r
      | None \<Rightarrow> if P c then lazyTry P k cs else None)"

primrec captureTry ::
  "(char \<Rightarrow> bool) \<Rightarrow> (string \<Rightarrow> string \<Rightarrow> 'a option) \<Rightarrow> string \<Rightarrow> string \<Rightarrow> 'a option" where
  "captureTry P k [] acc = None"
| "captureTry P k (c # cs) acc =
     (if P c then (case captureTry P k cs (acc @ [c]) of
                     Some r \<Rightarrow> Some r
                   | None \<Rightarrow> k (acc @ [c]) cs)
      else None)"

primrec firstOf :: "('b \<Rightarrow> 'a option) \<Rightarrow> 'b list \<Rightarrow> 'a option" where
  "firstOf f [] = None"
| "firstOf f (x # xs) = (case f x of Some r \<Rightarrow> Some r | None \<Rightarrow> firstOf f xs)"

primrec matchItems :: "regexItem list \<Rightarrow> string \<Rightarrow> string \<Rightarrow> (string \<times> string) option" where
  "matchItems [] = (\<lambda>s cap. Some (cap, s))"
| "matchItems (it # its) = (\<lambda>s cap.
     case it of
       Lit l \<Rightarrow> if prefix l s then matchItems its (drop (length l) s) cap else None
     | One P \<Rightarrow> (case s of [] \<Rightarrow> None | c # cs \<Rightarrow> if P c then matchItems its cs cap else None)
     | Greedy P n \<Rightarrow> greedyTry P (\<lambda>r. matchItems its r cap) s n
     | Lazy P \<Rightarrow> lazyTry P (\<lambda>r. matchItems its r cap) s
     | Capture P \<Rightarrow> captureTry P (\<lambda>c r. matchItems its r c) s []
     | OneOf ls \<Rightarrow>
         firstOf (\<lambda>l. if prefix l s then matchItems its (drop (length l) s) cap else None) ls)"

text \<open>
  The loop \<open>while ((match = pattern.regex.exec(line)) !== null)\<close> of a global expression:
  the leftmost match, then the leftmost match after its end, and so on. \<open>skip\<close> counts
  the characters of the last match still to be passed.
\<close>

primrec execAll :: "regexItem list \<Rightarrow> string \<Rightarrow> nat \<Rightarrow> string list" where
  "execAll pat [] skip = []"
| "execAll pat (c # cs) skip =
     (if 0 < skip then execAll pat cs (skip - 1)
      else (case matchItems pat (c # cs) [] of
              Some (cap, rest) \<Rightarrow> cap # execAll pat cs (length cs - length rest)
            | None \<Rightarrow> execAll pat cs 0))"

text \<open>The character class \<open>['"`]\<close>, the quoted path \<open>['"`]([^'"`]+)['"`]\<close>, the tail
  \<open>(?:[^'"]*?)\s+from\s+['"`]([^'"`]+)['"`]\<close>, and
  \<open>require\s*\(\s*['"`]([^'"`]+)['"`]\s*\)\<close>.\<close>

definition isQuote :: "char \<Rightarrow> bool" where
  "isQuote c = (c = CHR 0x27 \<or> c = CHR 0x22 \<or> c = CHR 0x60)"

definition quoted :: "regexItem list" where
  "quoted = [One isQuote, Capture (\<lambda>c. \<not> isQuote c), One isQuote]"

definition fromQuoted :: "regexItem list" where
  "fromQuoted = [Lazy (\<lambda>c. c \<noteq> CHR 0x27 \<and> c \<noteq> CHR 0x22), Greedy isSpace 1, Lit ''from'',
                 Greedy isSpace 1] @ quoted"

definition requireCall :: "regexItem list" where
  "requireCall = [Lit ''require'', Greedy isSpace 0, Lit ''('', Greedy isSpace 0] @ quoted
                 @ [Greedy isSpace 0, Lit '')'']"

fun jsRegex :: "importPattern \<Rightarrow> regexItem list" where
  "jsRegex ES6Import = [Lit ''import'', Greedy isSpace 1] @ fromQuoted"
| "jsRegex TypeImport = [Lit ''import'', Greedy isSpace 1, Lit ''type'', Greedy isSpace 1] @ fromQuoted"
| "jsRegex SideEffect = [Lit ''import'', Greedy isSpace 1] @ quoted"
| "jsRegex DynamicImport =
     [Lit ''import'', Greedy isSpace 0, Lit ''('', Greedy isSpace 0] @ quoted
     @ [Greedy isSpace 0, Lit '')'']"
| "jsRegex ReExport = [Lit ''export'', Greedy isSpace 1] @ fromQuoted"
| "jsRegex CommonJSAssign =
     [OneOf [''const'', ''let'', ''var''], Greedy isSpace 1, Greedy (\<lambda>c. c \<noteq> CHR ''='') 1,
      Greedy isSpace 0, Lit ''='', Greedy isSpace 0] @ requireCall"
| "jsRegex DirectRequire = requireCall"

text \<open>The first capture group of every successive match of a pattern on a line.\<close>

definition jsMatches :: "importPattern \<Rightarrow> string \<Rightarrow> string list" where
  "jsMatches pat line = execAll (jsRegex pat) line 0"

section \<open>An example project\<close>

text \<open>
  A small project on which the traversal and the resolver are run. The files import
  with side-effect imports, \<open>import "./a"\<close>; on such a line only the side-effect
  pattern matches. None of the files is a Svelte file, and the host has no script
  regions to give.
\<close>

definition importLine :: "string \<Rightarrow> string" where
  "importLine spec = ''import '' @ [CHR 0x22] @ spec @ [CHR 0x22]"

text \<open>The text of a file with one such import per line.\<close>

definition importLines :: "string list \<Rightarrow> string" where
  "importLines specs = join_sep [CHR 0x0A] (map importLine specs)"

definition textFile :: "string \<Rightarrow> fsEntry" where
  "textFile text = \<lparr> isFile = True, fileSize = length text, readFile = Inr text \<rparr>"

definition directory :: fsEntry where
  "directory = \<lparr> isFile = False, fileSize = 4096,
                 readFile = Inl ''EISDIR: illegal operation on a directory, read'' \<rparr>"

text \<open>What \<open>getFileInfo\<close> returns for a text file within the size limit.\<close>

definition textInfo :: "string \<Rightarrow> fileInfo" where
  "textInfo text = \<lparr> fi_size = length text, fi_content = text, fi_isText = True,
                    fi_skipReason = None, fi_error = None \<rparr>"

text \<open>The module loader finds the package \<open>lodash\<close>, and would find a package named
  \<open>$lib/gone\<close>.\<close>

definition exampleLoader :: "string \<Rightarrow> string option \<Rightarrow> string option" where
  "exampleLoader request dir =
     (if request = ''lodash'' then Some ''/p/node_modules/lodash/index.js''
      else if request = ''$lib/gone'' then Some ''/p/node_modules/gone.js''
      else None)"

definition host :: "(string \<times> fsEntry) list \<Rightarrow> env" where
  "host fs = \<lparr> cwd = ''/home'', files = fs, requireResolve = exampleLoader,
               regexMatches = jsMatches, scriptRegions = (\<lambda>content. []) \<rparr>"

text \<open>\<open>r.ts\<close> imports \<open>a.ts\<close> and \<open>c.ts\<close>; \<open>a.ts\<close> imports \<open>b.ts\<close>, which imports
  \<open>c.ts\<close>; \<open>e.ts\<close> imports two packages, of which one is installed; \<open>f.ts\<close>
  imports \<open>$libbar\<close>, and nothing under \<open>src\<close> has that name.\<close>

definition project :: "(string \<times> fsEntry) list" where
  "project =
     [(''/p'', directory),
      (''/p/r.ts'', textFile (importLines [''./a'', ''./c''])),
      (''/p/a.ts'', textFile (importLines [''./b''])),
      (''/p/b.ts'', textFile (importLines [''./c''])),
      (''/p/c.ts'', textFile ''export const c = 1''),
      (''/p/e.ts'', textFile (importLines [''lodash'', ''left-pad''])),
      (''/p/node_modules/lodash/index.js'', textFile ''module.exports = {}''),
      (''/p/b.test.ts'', textFile ''test()''),
      (''/p/src/libfoo.ts'', textFile ''export {}''),
      (''/p/f.ts'', textFile (importLines [''$libbar'']))]"

text \<open>The options of the command line, with the project root given: a depth limit or
  none, external inclusion on or off, and the defaults for the rest.\<close>

definition settings :: "limit option \<Rightarrow> bool \<Rightarrow> options" where
  "settings lim ext =
     \<lparr> opt_maxDepth = lim, opt_rootDir = Some ''/p'', opt_includeExternal = Some ext,
       opt_maxContentLength = None, opt_extensions = None, opt_excludePatterns = None,
       opt_svelteAliases = None \<rparr>"

section \<open>Notions used in the properties\<close>

text \<open>The paths \<open>tryResolveWithExtensions\<close> looks at for a base path, in its order.\<close>

definition candidatePaths :: "config \<Rightarrow> string \<Rightarrow> string list" where
  "candidatePaths cfg basePath =
     basePath # withExtensions cfg basePath @ indexFiles cfg basePath"

definition hideExcluded :: "config \<Rightarrow> env \<Rightarrow> env" where
  "hideExcluded cfg e = e\<lparr>files := filter (\<lambda>pf. \<not> shouldExclude cfg (fst pf)) (files e)\<rparr>"


text \<open>
  The resolver as the specification words it: an ordered list of strategies, each an
  applicability test and a resolution; the first strategy whose test holds gives the
  result.
\<close>

definition strategies ::
  "env \<Rightarrow> config \<Rightarrow> string \<Rightarrow> ((string \<Rightarrow> bool) \<times> (string \<Rightarrow> string \<Rightarrow> string option)) list" where
  "strategies e cfg root =
     [(isSvelteAlias cfg, \<lambda>importPath fromFile. resolveSvelteAlias e cfg root importPath),
      (isProjectAbsoluteImport,
         \<lambda>importPath fromFile. resolveProjectAbsoluteImport e cfg root importPath),
      (isRelativeImport, resolveRelativeImport e cfg),
      (\<lambda>importPath. True, resolveExternal e cfg)]"

definition resolveFirstApplicable ::
  "env \<Rightarrow> config \<Rightarrow> string \<Rightarrow> string \<Rightarrow> string \<Rightarrow> string option" where
  "resolveFirstApplicable e cfg root importPath fromFile =
     (case find (\<lambda>s. fst s importPath) (strategies e cfg root) of
        None \<Rightarrow> None
      | Some s \<Rightarrow> snd s importPath fromFile)"

text \<open>
  The shared order of extension and index resolution, in the specification's words: the
  exact path, accepted only when it exists, is not excluded and is a regular file; then
  the path with each configured extension appended, in the configured order; then the
  index file for each extension, in the same order. A path with an extension and an
  index file are accepted when they exist and are not excluded.
\<close>

definition firstInSharedOrder :: "env \<Rightarrow> config \<Rightarrow> string \<Rightarrow> string option" where
  "firstInSharedOrder e cfg b =
     (if existsSync e b \<and> \<not> shouldExclude cfg b \<and> statIsFile e b then Some b
      else find (\<lambda>p. existsSync e p \<and> \<not> shouldExclude cfg p)
             (map (\<lambda>ext. b @ ext) (extensions cfg)
              @ map (\<lambda>ext. path_join [b, ''index'' @ ext]) (extensions cfg)))"

text \<open>An alias table in which one key starts another, with a file below the project
  path of the longer key.\<close>

definition overlappingAliases :: options where
  "overlappingAliases =
     (settings None False)\<lparr> opt_svelteAliases :=
        Some [(''$app'', ''@sveltejs/kit''), (''$application'', ''src/application'')] \<rparr>"

text \<open>
  What a call at depth \<open>d\<close> may do to the extractor: the root directory stays, no path
  leaves the visited table, the depth recorded for a path never grows, and every entry
  the call writes has depth \<open>d\<close> or more.
\<close>


definition tableStep :: "nat \<Rightarrow> extractor \<Rightarrow> extractor \<Rightarrow> bool" where
  "tableStep d st st' =
     (rootDir st' = rootDir st \<and>
      (\<forall>k. case map_of (visited st) k of
             None \<Rightarrow> (\<forall>v. map_of (visited st') k = Some v \<longrightarrow> d \<le> v)
           | Some u \<Rightarrow> (\<exists>v. map_of (visited st') k = Some v \<and> v \<le> u \<and> (v = u \<or> d \<le> v))))"

text \<open>
  The files a call at depth \<open>d\<close> could still expand: those on disk that are not in the
  visited table at depth \<open>d\<close> or above. Every nested call has fewer of them, so a bound
  above the number of files on disk is never reached.
\<close>

definition openFiles :: "env \<Rightarrow> extractor \<Rightarrow> nat \<Rightarrow> string set" where
  "openFiles e st d = {q \<in> fst ` set (files e). \<not> visitedAtOrAbove st q d}"

text \<open>The extractor \<open>analyze\<close> starts the traversal with: the root detected, when the
  configured root is empty or the working directory.\<close>

definition rootDetected :: "env \<Rightarrow> extractor \<Rightarrow> string \<Rightarrow> extractor" where
  "rootDetected e st filePath =
     (if rootDir st = [] \<or> rootDir st = cwd e
      then st\<lparr> rootDir := autoDetectProjectRoot e (rootDir st) filePath \<rparr>
      else st)"

text \<open>The extractor after \<open>analyze\<close> has run on \<open>r.ts\<close> of the example project, with no
  depth limit and without external inclusion.\<close>

definition afterFirstRun :: extractor where
  "afterFirstRun =
     snd (the (analyze (Suc (Suc (Suc (Suc 0)))) (host project) (mkConfig (settings None False))
                 (newExtractor (host project) (settings None False)) ''/p/r.ts''))"


section \<open>Properties of the resolver\<close>

lemmas path_eval = path_resolve_def normalizeString_def path_normalize_def path_join_def
  path_dirname_def path_relative_def path_segments_def path_basename_def path_extname_def

lemmas resolve_eval = resolveImportPath_def isSvelteAlias_def resolveSvelteAlias_def
  isProjectAbsoluteImport_def projectPrefixes_def resolveProjectAbsoluteImport_def
  possibleRoots_def resolveRelativeImport_def isRelativeImport_def resolveExternal_def
  tryResolveWithExtensions_def withExtensions_def indexFiles_def shouldExclude_def
  existsSync_def statIsFile_def truthy_def contains_def suffix_to_prefix sublist_code

lemmas host_eval = host_def project_def textFile_def directory_def exampleLoader_def

lemma cfg_fields:
  "extensions (mkConfig (settings lim ext)) = default_extensions"
  "excludePatterns (mkConfig (settings lim ext)) = default_excludePatterns"
  "svelteAliases (mkConfig (settings lim ext)) = default_svelteAliases"
  "includeExternal (mkConfig (settings lim ext)) = ext"
  "maxContentLength (mkConfig (settings lim ext)) = 100000"
  "maxDepth (mkConfig (settings None ext)) = Infinity"
  "maxDepth (mkConfig (settings (Some (Finite 1)) ext)) = Finite 1"
  "maxDepth (mkConfig (settings (Some (Finite (- 1))) ext)) = Finite (- 1)"
  by (simp_all add: mkConfig_def settings_def)

lemmas cfg_eval = cfg_fields default_extensions_def default_excludePatterns_def
  default_svelteAliases_def

lemma firstAccepted_Some:
  "firstAccepted e cfg ps = Some p \<Longrightarrow> p \<in> set ps \<and> existsSync e p \<and> \<not> shouldExclude cfg p"
  by (induction ps) (auto split: if_splits)

lemma firstAccepted_None:
  "firstAccepted e cfg ps = None \<longleftrightarrow> (\<forall>p \<in> set ps. \<not> (existsSync e p \<and> \<not> shouldExclude cfg p))"
  by (induction ps) auto

lemma firstAccepted_append:
  "firstAccepted e cfg (ps @ qs) =
     (case firstAccepted e cfg ps of Some p \<Rightarrow> Some p | None \<Rightarrow> firstAccepted e cfg qs)"
  by (induction ps) auto

lemma firstAccepted_first:
  "\<forall>q \<in> set ps. \<not> (existsSync e q \<and> \<not> shouldExclude cfg q) \<Longrightarrow>
   existsSync e p \<and> \<not> shouldExclude cfg p \<Longrightarrow>
   firstAccepted e cfg (ps @ p # qs) = Some p"
  by (induction ps) auto

lemma map_of_filter_fst:
  "map_of (filter (\<lambda>pf. P (fst pf)) xs) k = (if P k then map_of xs k else None)"
  by (induction xs) auto

lemmas map_of_hide = map_of_filter_fst [where P = "\<lambda>k. \<not> shouldExclude cfg k" for cfg, simplified]

lemma existsSync_hideExcluded:
  "existsSync (hideExcluded cfg e) p = (existsSync e p \<and> \<not> shouldExclude cfg p)"
  by (simp add: existsSync_def hideExcluded_def map_of_hide)

lemma statIsFile_hideExcluded:
  "\<not> shouldExclude cfg p \<Longrightarrow> statIsFile (hideExcluded cfg e) p = statIsFile e p"
  by (simp add: statIsFile_def hideExcluded_def map_of_hide)

lemma firstAccepted_hideExcluded:
  "firstAccepted (hideExcluded cfg e) cfg = firstAccepted e cfg"
proof
  fix ps show "firstAccepted (hideExcluded cfg e) cfg ps = firstAccepted e cfg ps"
    by (induction ps) (auto simp: existsSync_hideExcluded)
qed

lemma tryResolve_hideExcluded:
  "tryResolveWithExtensions (hideExcluded cfg e) cfg b = tryResolveWithExtensions e cfg b"
  by (cases "shouldExclude cfg b")
    (simp_all add: tryResolveWithExtensions_def firstAccepted_hideExcluded
      existsSync_hideExcluded statIsFile_hideExcluded cong: option.case_cong)

lemma tryResolve_cases:
  "tryResolveWithExtensions e cfg b =
     (if existsSync e b \<and> \<not> shouldExclude cfg b \<and> statIsFile e b then Some b
      else firstAccepted e cfg (tl (candidatePaths cfg b)))"
  by (simp add: tryResolveWithExtensions_def candidatePaths_def firstAccepted_append)

lemma tryResolve_Some:
  assumes "tryResolveWithExtensions e cfg b = Some p"
  shows "p \<in> set (candidatePaths cfg b) \<and> existsSync e p \<and> \<not> shouldExclude cfg p"
proof (cases "existsSync e b \<and> \<not> shouldExclude cfg b \<and> statIsFile e b")
  case True
  with assms have "p = b" by (simp add: tryResolve_cases)
  with True show ?thesis by (simp add: candidatePaths_def)
next
  case False
  with assms have "firstAccepted e cfg (tl (candidatePaths cfg b)) = Some p"
    by (simp add: tryResolve_cases)
  from firstAccepted_Some [OF this] show ?thesis by (auto simp: candidatePaths_def)
qed

lemma tryResolve_None:
  assumes "\<forall>c \<in> set (candidatePaths cfg b). existsSync e c \<longrightarrow> shouldExclude cfg c"
  shows "tryResolveWithExtensions e cfg b = None"
proof -
  have "b \<in> set (candidatePaths cfg b)" by (simp add: candidatePaths_def)
  with assms have 1: "\<not> (existsSync e b \<and> \<not> shouldExclude cfg b \<and> statIsFile e b)" by blast
  have "set (tl (candidatePaths cfg b)) \<subseteq> set (candidatePaths cfg b)"
    by (auto simp: candidatePaths_def)
  with assms have "\<forall>p \<in> set (tl (candidatePaths cfg b)). \<not> (existsSync e p \<and> \<not> shouldExclude cfg p)"
    by blast
  then have "firstAccepted e cfg (tl (candidatePaths cfg b)) = None"
    by (simp only: firstAccepted_None)
  with 1 show ?thesis by (simp add: tryResolve_cases)
qed


text \<open>
  C5. The resolver tries the alias, project-absolute, relative and external strategies
  in this order; the first whose applicability test holds for the specifier gives the
  result, also when it finds no file: no later strategy is tried.
\<close>

theorem resolve_strategy_order:
  "resolveImportPath e cfg root imp from = resolveFirstApplicable e cfg root imp from
   \<and> (isSvelteAlias cfg imp \<longrightarrow>
        resolveImportPath e cfg root imp from = resolveSvelteAlias e cfg root imp)
   \<and> (\<not> isSvelteAlias cfg imp \<and> isProjectAbsoluteImport imp \<longrightarrow>
        resolveImportPath e cfg root imp from = resolveProjectAbsoluteImport e cfg root imp)
   \<and> (\<not> isSvelteAlias cfg imp \<and> \<not> isProjectAbsoluteImport imp \<and> isRelativeImport imp \<longrightarrow>
        resolveImportPath e cfg root imp from = resolveRelativeImport e cfg imp from)
   \<and> (\<not> isSvelteAlias cfg imp \<and> \<not> isProjectAbsoluteImport imp \<and> \<not> isRelativeImport imp \<longrightarrow>
        resolveImportPath e cfg root imp from = resolveExternal e cfg imp from)"
  by (simp add: resolveImportPath_def resolveFirstApplicable_def strategies_def)

text \<open>
  In the example project with external inclusion on, \<open>$lib/gone\<close> starts with the alias
  \<open>$lib\<close> and names no file under \<open>src/lib\<close>. The module loader would find it, and the
  result is still \<open>null\<close>.
\<close>

theorem resolve_strategy_order_witness:
  "isSvelteAlias (mkConfig (settings None True)) ''$lib/gone''
   \<and> resolveSvelteAlias (host project) (mkConfig (settings None True)) ''/p'' ''$lib/gone'' = None
   \<and> resolveExternal (host project) (mkConfig (settings None True)) ''$lib/gone'' ''/p/r.ts''
         = Some ''/p/node_modules/gone.js''
   \<and> resolveImportPath (host project) (mkConfig (settings None True)) ''/p'' ''$lib/gone''
         ''/p/r.ts'' = None"
proof -
  have claims: "isSvelteAlias (mkConfig (settings None True)) ''$lib/gone''"
    by (simp add: isSvelteAlias_def cfg_eval)
  have none: "resolveSvelteAlias (host project) (mkConfig (settings None True)) ''/p''
                ''$lib/gone'' = None"
    by (simp add: resolve_eval cfg_eval path_eval host_eval)
  have ext: "resolveExternal (host project) (mkConfig (settings None True)) ''$lib/gone''
               ''/p/r.ts'' = Some ''/p/node_modules/gone.js''"
    by (simp add: resolveExternal_def cfg_eval host_eval)
  from resolve_strategy_order [of "host project" "mkConfig (settings None True)" "''/p''"
      "''$lib/gone''" "''/p/r.ts''"] claims none
  have "resolveImportPath (host project) (mkConfig (settings None True)) ''/p'' ''$lib/gone''
          ''/p/r.ts'' = None" by (elim conjE) simp
  with claims none ext show ?thesis by simp
qed

text \<open>
  C6. A path that matches an exclude pattern counts as missing at every stage of
  extension and index resolution: resolution gives the same result as on a file system
  without the excluded paths; it never returns an excluded path; and when every
  candidate that exists is excluded, the result is \<open>null\<close>.
\<close>

theorem excluded_paths_are_nonexistent:
  "tryResolveWithExtensions e cfg b = tryResolveWithExtensions (hideExcluded cfg e) cfg b
   \<and> (\<forall>p. tryResolveWithExtensions e cfg b = Some p \<longrightarrow>
          \<not> shouldExclude cfg p \<and> existsSync e p \<and> p \<in> set (candidatePaths cfg b))
   \<and> ((\<forall>c \<in> set (candidatePaths cfg b). existsSync e c \<longrightarrow> shouldExclude cfg c) \<longrightarrow>
          tryResolveWithExtensions e cfg b = None)"
proof (intro conjI allI impI)
  show "tryResolveWithExtensions e cfg b = tryResolveWithExtensions (hideExcluded cfg e) cfg b"
    by (simp only: tryResolve_hideExcluded)
next
  fix p assume "tryResolveWithExtensions e cfg b = Some p"
  from tryResolve_Some [OF this]
  show "\<not> shouldExclude cfg p" "existsSync e p" "p \<in> set (candidatePaths cfg b)" by blast+
next
  assume "\<forall>c \<in> set (candidatePaths cfg b). existsSync e c \<longrightarrow> shouldExclude cfg c"
  then show "tryResolveWithExtensions e cfg b = None" by (rule tryResolve_None)
qed

text \<open>
  In the example project \<open>/p/b.test.ts\<close> is on disk and matches the default pattern for
  test files: the specifier \<open>./b.test\<close> resolves to \<open>null\<close>, while \<open>./b\<close> resolves to
  \<open>/p/b.ts\<close>, which no pattern matches.
\<close>

theorem excluded_paths_are_nonexistent_witness:
  "existsSync (host project) ''/p/b.test.ts''
   \<and> shouldExclude (mkConfig (settings None False)) ''/p/b.test.ts''
   \<and> tryResolveWithExtensions (host project) (mkConfig (settings None False)) ''/p/b.test'' = None
   \<and> resolveImportPath (host project) (mkConfig (settings None False)) ''/p'' ''./b.test''
        ''/p/a.ts'' = None
   \<and> tryResolveWithExtensions (host project) (mkConfig (settings None False)) ''/p/b''
        = Some ''/p/b.ts''
   \<and> \<not> shouldExclude (mkConfig (settings None False)) ''/p/b.ts''"
proof -
  let ?cfg = "mkConfig (settings None False)"
  have ex: "existsSync (host project) ''/p/b.test.ts''"
    by (simp add: existsSync_def host_eval)
  have excl: "shouldExclude ?cfg ''/p/b.test.ts''"
    by (simp add: shouldExclude_def cfg_eval contains_def suffix_to_prefix sublist_code)
  have all: "\<forall>c \<in> set (candidatePaths ?cfg ''/p/b.test'').
               existsSync (host project) c \<longrightarrow> shouldExclude ?cfg c"
    by (simp add: candidatePaths_def withExtensions_def indexFiles_def cfg_eval path_eval
        existsSync_def host_eval shouldExclude_def contains_def suffix_to_prefix sublist_code)
  from excluded_paths_are_nonexistent [of "host project" ?cfg "''/p/b.test''"] all
  have none: "tryResolveWithExtensions (host project) ?cfg ''/p/b.test'' = None" by blast
  have base: "path_resolve (cwd (host project)) [path_dirname ''/p/a.ts'', ''./b.test'']
                = ''/p/b.test''"
    by (simp add: path_eval host_def)
  have spec: "resolveImportPath (host project) ?cfg ''/p'' ''./b.test'' ''/p/a.ts'' = None"
    using none base
    by (simp add: resolveImportPath_def isSvelteAlias_def isProjectAbsoluteImport_def
        projectPrefixes_def isRelativeImport_def resolveRelativeImport_def cfg_eval)
  have some: "tryResolveWithExtensions (host project) ?cfg ''/p/b'' = Some ''/p/b.ts''"
    by (simp add: resolve_eval cfg_eval path_eval host_eval)
  from excluded_paths_are_nonexistent [of "host project" ?cfg "''/p/b''"] some
  have "\<not> shouldExclude ?cfg ''/p/b.ts''" by blast
  with ex excl none spec some show ?thesis by simp
qed

subsection \<open>Paths below a resolved root\<close>

lemma split_sep_nonempty: "split_sep c s \<noteq> []"
  by (induction s) (auto split: list.splits)

lemma split_sep_append:
  "split_sep c (a @ c # b) = split_sep c a @ split_sep c b"
proof (induction a)
  case Nil
  show ?case by simp
next
  case (Cons x a)
  obtain s ss where "split_sep c a = s # ss"
    using split_sep_nonempty [of c a] by (cases "split_sep c a") auto
  with Cons show ?case by simp
qed

lemma normalizeSegs_append:
  "normalizeSegs climb acc (xs @ ys) = normalizeSegs climb (rev (normalizeSegs climb acc xs)) ys"
  by (induction xs arbitrary: acc) (auto split: list.splits)

lemma join_sep_snoc:
  "xs \<noteq> [] \<Longrightarrow> join_sep sep (xs @ [y]) = join_sep sep xs @ sep @ y"
  by (induction sep xs rule: join_sep.induct) auto

text \<open>A path that \<open>path.resolve\<close> leaves as it is: absolute and normalised.\<close>

lemma resolved_form:
  assumes "path_resolve wd [p] = p"
  shows "p \<noteq> [] \<and> hd p = CHR ''/'' \<and>
         p = ''/'' @ join_sep ''/'' (normalizeSegs False [] (split_sep CHR ''/'' p))"
proof -
  have ne: "p \<noteq> []" using assms by (auto simp: path_resolve_def)
  have root: "hd p = CHR ''/''"
  proof (rule ccontr)
    assume "hd p \<noteq> CHR ''/''"
    with ne have "hd (path_resolve wd [p]) = CHR ''/''" by (simp add: path_resolve_def)
    with assms \<open>hd p \<noteq> CHR ''/''\<close> show False by simp
  qed
  from ne root have "path_resolve wd [p] = ''/'' @ normalizeString (p @ ''/'') False"
    by (simp add: path_resolve_def)
  also have "normalizeString (p @ ''/'') False =
      join_sep ''/'' (normalizeSegs False [] (split_sep CHR ''/'' p))"
    by (simp add: normalizeString_def split_sep_append normalizeSegs_append)
  finally show ?thesis using assms ne root by simp
qed

lemma join_sep_Cons: "join_sep sep (s # ys) = s @ concat (map ((@) sep) ys)"
  by (induction ys arbitrary: s) auto

lemma join_sep_append:
  "xs \<noteq> [] \<Longrightarrow> join_sep sep (xs @ ys) = join_sep sep xs @ concat (map ((@) sep) ys)"
  by (cases xs) (simp_all add: join_sep_Cons)

lemma resolved_not_root:
  assumes "path_resolve wd [R] = R" "R \<noteq> ''/''"
  shows "normalizeSegs False [] (split_sep CHR ''/'' R) \<noteq> []"
proof
  assume "normalizeSegs False [] (split_sep CHR ''/'' R) = []"
  with resolved_form [OF assms(1)] have "R = ''/''" by simp
  with assms(2) show False by simp
qed

lemma resolved_child_lib_x:
  assumes "path_resolve wd [R] = R" "R \<noteq> ''/''"
  shows "path_resolve wd [R, ''src/lib/x''] = R @ ''/src/lib/x''"
proof -
  let ?N = "normalizeSegs False [] (split_sep CHR ''/'' R)"
  from resolved_form [OF assms(1)]
  have ne: "R \<noteq> []" and root: "hd R = CHR ''/''" and form: "R = ''/'' @ join_sep ''/'' ?N"
    by simp_all
  have N: "?N \<noteq> []" using assms by (rule resolved_not_root)
  have "path_resolve wd [R, ''src/lib/x''] = ''/'' @ normalizeString (R @ ''/'' @ ''src/lib/x/'') False"
    using ne root by (simp add: path_resolve_def)
  also have "normalizeString (R @ ''/'' @ ''src/lib/x/'') False =
      join_sep ''/'' (?N @ [''src'', ''lib'', ''x''])"
    by (simp add: normalizeString_def split_sep_append normalizeSegs_append)
  also have "\<dots> = join_sep ''/'' ?N @ ''/src/lib/x''"
    using N by (simp add: join_sep_append)
  finally show ?thesis using form by (metis append_assoc)
qed

lemma resolved_index_lib_x:
  assumes "path_resolve wd [R] = R" "R \<noteq> ''/''"
  shows "path_join [R @ ''/src/lib/x'', ''index.ts''] = R @ ''/src/lib/x/index.ts''"
proof -
  let ?N = "normalizeSegs False [] (split_sep CHR ''/'' R)"
  from resolved_form [OF assms(1)]
  have ne: "R \<noteq> []" and root: "hd R = CHR ''/''" and form: "R = ''/'' @ join_sep ''/'' ?N"
    by simp_all
  have N: "?N \<noteq> []" using assms by (rule resolved_not_root)
  have "normalizeString (R @ ''/'' @ ''src/lib/x/index.ts'') False =
      join_sep ''/'' (?N @ [''src'', ''lib'', ''x'', ''index.ts''])"
    by (simp add: normalizeString_def split_sep_append normalizeSegs_append)
  also have "\<dots> = join_sep ''/'' ?N @ ''/src/lib/x/index.ts''"
    using N by (simp add: join_sep_append)
  finally have q: "normalizeString (R @ ''/src/lib/x/index.ts'') False =
      join_sep ''/'' ?N @ ''/src/lib/x/index.ts''" by simp
  have "path_join [R @ ''/src/lib/x'', ''index.ts''] = ''/'' @ join_sep ''/'' ?N @ ''/src/lib/x/index.ts''"
    using ne root q by (simp add: path_join_def path_normalize_def)
  with form show ?thesis by (metis append_assoc)
qed


subsection \<open>Alias resolution\<close>

lemma resolveSvelteAliasLoop_find:
  "resolveSvelteAliasLoop e cfg root imp al =
     (case find (\<lambda>a. prefix (fst a) imp) al of
        None \<Rightarrow> None
      | Some a \<Rightarrow>
          if prefix ''@sveltejs/kit'' (snd a) then
            (if includeExternal cfg then requireResolve e (snd a) None else None)
          else tryResolveWithExtensions e cfg
                 (path_resolve (cwd e) [root, snd a @ drop (length (fst a)) imp]))"
  by (induction al) auto

lemma isSvelteAlias_find:
  "isSvelteAlias cfg imp \<longleftrightarrow> find (\<lambda>a. prefix (fst a) imp) (svelteAliases cfg) \<noteq> None"
  by (force simp: isSvelteAlias_def list_ex_iff find_None_iff)

lemma firstAccepted_files:
  "files e' = files e \<Longrightarrow> excludePatterns cfg' = excludePatterns cfg \<Longrightarrow>
   firstAccepted e' cfg' ps = firstAccepted e cfg ps"
  by (induction ps) (auto simp: existsSync_def shouldExclude_def)

lemma tryResolve_files:
  assumes "files e' = files e" "excludePatterns cfg' = excludePatterns cfg"
      and "extensions cfg' = extensions cfg"
  shows "tryResolveWithExtensions e' cfg' b = tryResolveWithExtensions e cfg b"
proof -
  have "withExtensions cfg' b = withExtensions cfg b" "indexFiles cfg' b = indexFiles cfg b"
    using assms(3) by (simp_all add: withExtensions_def indexFiles_def)
  moreover have "firstAccepted e' cfg' = firstAccepted e cfg"
    using assms(1,2) by (auto intro: firstAccepted_files)
  ultimately show ?thesis using assms(1,2)
    by (simp add: tryResolveWithExtensions_def existsSync_def shouldExclude_def statIsFile_def
        cong: option.case_cong)
qed

lemma alias_to_project_path:
  assumes "find (\<lambda>a. prefix (fst a) imp) (svelteAliases cfg) = Some (k, t)"
      and "\<not> prefix ''@sveltejs/kit'' t"
  shows "resolveImportPath e cfg root imp from =
           tryResolveWithExtensions e cfg (path_resolve (cwd e) [root, t @ drop (length k) imp])"
  using assms
  by (simp add: resolveImportPath_def isSvelteAlias_find resolveSvelteAlias_def
      resolveSvelteAliasLoop_find)

subsection \<open>The alias for the library directory\<close>

lemma firstAccepted_find:
  "firstAccepted e cfg ps = find (\<lambda>p. existsSync e p \<and> \<not> shouldExclude cfg p) ps"
  by (induction ps) auto

lemma tryResolve_sharedOrder:
  "tryResolveWithExtensions e cfg b = firstInSharedOrder e cfg b"
  by (simp add: tryResolve_cases firstInSharedOrder_def firstAccepted_find candidatePaths_def
      withExtensions_def indexFiles_def)

text \<open>
  C7, as the code has it. With the alias \<open>$lib\<close> for \<open>src/lib\<close> first in the alias table,
  the specifier \<open>$lib/x\<close> resolves, from any file, to the first accepted path in the
  shared order for the base path \<open>R/src/lib/x\<close>. So, with \<open>.ts\<close> the first extension and
  the exact path not an accepted regular file: it is \<open>R/src/lib/x.ts\<close> when that exists
  and is not excluded; it is \<open>R/src/lib/x/index.ts\<close> when no path with an extension is
  accepted and the index file exists and is not excluded; and it is \<open>null\<close> when no
  candidate is accepted.
\<close>

theorem lib_alias_resolution:
  assumes "svelteAliases cfg = (''$lib'', ''src/lib'') # aliases"
      and "path_resolve (cwd e) [R] = R" and "R \<noteq> ''/''"
  shows "resolveImportPath e cfg R ''$lib/x'' fromFile = firstInSharedOrder e cfg (R @ ''/src/lib/x'')
       \<and> (extensions cfg = ''.ts'' # exts
            \<and> \<not> (existsSync e (R @ ''/src/lib/x'') \<and> \<not> shouldExclude cfg (R @ ''/src/lib/x'')
                   \<and> statIsFile e (R @ ''/src/lib/x'')) \<longrightarrow>
            (existsSync e (R @ ''/src/lib/x.ts'') \<and> \<not> shouldExclude cfg (R @ ''/src/lib/x.ts'') \<longrightarrow>
               resolveImportPath e cfg R ''$lib/x'' fromFile = Some (R @ ''/src/lib/x.ts''))
          \<and> ((\<forall>p \<in> set (withExtensions cfg (R @ ''/src/lib/x'')).
                  \<not> (existsSync e p \<and> \<not> shouldExclude cfg p))
               \<and> existsSync e (R @ ''/src/lib/x/index.ts'')
               \<and> \<not> shouldExclude cfg (R @ ''/src/lib/x/index.ts'') \<longrightarrow>
               resolveImportPath e cfg R ''$lib/x'' fromFile = Some (R @ ''/src/lib/x/index.ts''))
          \<and> ((\<forall>p \<in> set (withExtensions cfg (R @ ''/src/lib/x''))
                       \<union> set (indexFiles cfg (R @ ''/src/lib/x'')).
                  \<not> (existsSync e p \<and> \<not> shouldExclude cfg p)) \<longrightarrow>
               resolveImportPath e cfg R ''$lib/x'' fromFile = None))"
proof -
  let ?b = "R @ ''/src/lib/x''"
  have "find (\<lambda>a. prefix (fst a) ''$lib/x'') (svelteAliases cfg) = Some (''$lib'', ''src/lib'')"
    using assms(1) by simp
  from alias_to_project_path [OF this]
  have "resolveImportPath e cfg R ''$lib/x'' fromFile =
          tryResolveWithExtensions e cfg (path_resolve (cwd e) [R, ''src/lib/x''])"
    by simp
  also have "path_resolve (cwd e) [R, ''src/lib/x''] = ?b"
    using assms(2,3) by (rule resolved_child_lib_x)
  finally have res: "resolveImportPath e cfg R ''$lib/x'' fromFile = tryResolveWithExtensions e cfg ?b" .
  then have order: "resolveImportPath e cfg R ''$lib/x'' fromFile = firstInSharedOrder e cfg ?b"
    by (simp only: tryResolve_sharedOrder)
  have cases: "resolveImportPath e cfg R ''$lib/x'' fromFile = Some (R @ ''/src/lib/x.ts'')"
    if "extensions cfg = ''.ts'' # exts"
      "\<not> (existsSync e ?b \<and> \<not> shouldExclude cfg ?b \<and> statIsFile e ?b)"
      "existsSync e (R @ ''/src/lib/x.ts'') \<and> \<not> shouldExclude cfg (R @ ''/src/lib/x.ts'')"
    using that by (simp add: res tryResolveWithExtensions_def withExtensions_def)
  have index: "resolveImportPath e cfg R ''$lib/x'' fromFile = Some (R @ ''/src/lib/x/index.ts'')"
    if ex: "extensions cfg = ''.ts'' # exts"
      and "\<not> (existsSync e ?b \<and> \<not> shouldExclude cfg ?b \<and> statIsFile e ?b)"
      and a: "(\<forall>p \<in> set (withExtensions cfg ?b). \<not> (existsSync e p \<and> \<not> shouldExclude cfg p))
            \<and> existsSync e (R @ ''/src/lib/x/index.ts'')
            \<and> \<not> shouldExclude cfg (R @ ''/src/lib/x/index.ts'')"
  proof -
    have ix: "indexFiles cfg ?b =
        (R @ ''/src/lib/x/index.ts'') # map (\<lambda>ext. path_join [?b, ''index'' @ ext]) exts"
      using ex resolved_index_lib_x [OF assms(2,3)] by (simp add: indexFiles_def)
    from a have "firstAccepted e cfg (withExtensions cfg ?b) = None"
      by (simp only: firstAccepted_None) blast
    moreover from a have "firstAccepted e cfg (indexFiles cfg ?b) = Some (R @ ''/src/lib/x/index.ts'')"
      by (simp add: ix)
    ultimately show ?thesis using that(2) by (simp add: res tryResolveWithExtensions_def)
  qed
  have none: "resolveImportPath e cfg R ''$lib/x'' fromFile = None"
    if "\<not> (existsSync e ?b \<and> \<not> shouldExclude cfg ?b \<and> statIsFile e ?b)"
      and a: "\<forall>p \<in> set (withExtensions cfg ?b) \<union> set (indexFiles cfg ?b).
                 \<not> (existsSync e p \<and> \<not> shouldExclude cfg p)"
  proof -
    from a have "firstAccepted e cfg (withExtensions cfg ?b) = None"
      by (simp only: firstAccepted_None) blast
    moreover from a have "firstAccepted e cfg (indexFiles cfg ?b) = None"
      by (simp only: firstAccepted_None) blast
    ultimately show ?thesis using that(1) by (simp add: res tryResolveWithExtensions_def)
  qed
  from order cases index none show ?thesis by blast
qed


text \<open>
  Three file systems under the root \<open>/p\<close>, with the default aliases, extensions and
  exclude patterns: with \<open>x.ts\<close> and the index file on disk the result is \<open>x.ts\<close>; with
  the index file alone it is the index file; with neither it is \<open>null\<close>.
\<close>

theorem lib_alias_resolution_witness:
  "resolveImportPath
      (host [(''/p/src/lib/x.ts'', textFile []), (''/p/src/lib/x/index.ts'', textFile [])])
      (mkConfig (settings None False)) ''/p'' ''$lib/x'' ''/p/r.ts'' = Some ''/p/src/lib/x.ts''
   \<and> resolveImportPath (host [(''/p/src/lib/x/index.ts'', textFile [])])
      (mkConfig (settings None False)) ''/p'' ''$lib/x'' ''/p/r.ts''
        = Some ''/p/src/lib/x/index.ts''
   \<and> resolveImportPath (host []) (mkConfig (settings None False)) ''/p'' ''$lib/x'' ''/p/r.ts''
        = None"
proof -
  let ?cfg = "mkConfig (settings None False)"
  let ?both = "host [(''/p/src/lib/x.ts'', textFile []), (''/p/src/lib/x/index.ts'', textFile [])]"
  let ?index = "host [(''/p/src/lib/x/index.ts'', textFile [])]"
  have al: "svelteAliases ?cfg = (''$lib'', ''src/lib'') # tl default_svelteAliases"
    by (simp add: cfg_eval)
  have ex: "extensions ?cfg = ''.ts'' # tl default_extensions"
    by (simp add: cfg_eval)
  have root: "path_resolve (cwd (host fs)) [''/p''] = ''/p''" for fs
    by (simp add: path_eval host_def)
  have ok: "\<not> shouldExclude ?cfg ''/p/src/lib/x.ts''"
    "\<not> shouldExclude ?cfg ''/p/src/lib/x/index.ts''"
    by (simp_all add: shouldExclude_def cfg_eval contains_def suffix_to_prefix sublist_code)
  have b1: "\<not> (existsSync ?both ''/p/src/lib/x'' \<and> \<not> shouldExclude ?cfg ''/p/src/lib/x''
              \<and> statIsFile ?both ''/p/src/lib/x'')"
    "existsSync ?both ''/p/src/lib/x.ts''"
    by (simp_all add: existsSync_def host_def)
  have 1: "resolveImportPath ?both ?cfg ''/p'' ''$lib/x'' ''/p/r.ts'' = Some ''/p/src/lib/x.ts''"
    using lib_alias_resolution [OF al
        root [of "[(''/p/src/lib/x.ts'', textFile []), (''/p/src/lib/x/index.ts'', textFile [])]"],
        where fromFile = "''/p/r.ts''" and exts = "tl default_extensions", THEN conjunct2] ex ok b1
    by simp
  have b2: "\<not> (existsSync ?index ''/p/src/lib/x'' \<and> \<not> shouldExclude ?cfg ''/p/src/lib/x''
              \<and> statIsFile ?index ''/p/src/lib/x'')"
    "existsSync ?index ''/p/src/lib/x/index.ts''"
    "\<forall>p \<in> set (withExtensions ?cfg ''/p/src/lib/x'').
       \<not> (existsSync ?index p \<and> \<not> shouldExclude ?cfg p)"
    by (simp_all add: existsSync_def host_def withExtensions_def cfg_eval)
  have 2: "resolveImportPath ?index ?cfg ''/p'' ''$lib/x'' ''/p/r.ts''
             = Some ''/p/src/lib/x/index.ts''"
    using lib_alias_resolution [OF al root [of "[(''/p/src/lib/x/index.ts'', textFile [])]"],
        where fromFile = "''/p/r.ts''" and exts = "tl default_extensions", THEN conjunct2] ex ok b2
    by simp
  have b3: "\<not> (existsSync (host []) ''/p/src/lib/x'' \<and> \<not> shouldExclude ?cfg ''/p/src/lib/x''
              \<and> statIsFile (host []) ''/p/src/lib/x'')"
    "\<forall>p \<in> set (withExtensions ?cfg ''/p/src/lib/x'') \<union> set (indexFiles ?cfg ''/p/src/lib/x'').
       \<not> (existsSync (host []) p \<and> \<not> shouldExclude ?cfg p)"
    by (simp_all add: existsSync_def host_def)
  have 3: "resolveImportPath (host []) ?cfg ''/p'' ''$lib/x'' ''/p/r.ts'' = None"
    using lib_alias_resolution [OF al root [of "[]"],
        where fromFile = "''/p/r.ts''" and exts = "tl default_extensions", THEN conjunct2] ex b3
    by simp
  from 1 2 3 show ?thesis by simp
qed

text \<open>
  The three cases of the specification as it is written do not hold without the conditions on
  the other candidates. With \<open>x.js\<close> alone on disk, neither \<open>x.ts\<close> nor the index file
  exists and the result is \<open>x.js\<close>, not \<open>null\<close>. With a regular file \<open>x\<close> beside
  \<open>x.ts\<close>, the result is \<open>x\<close>. With \<open>x.js\<close> beside \<open>x/index.ts\<close>, the result is
  \<open>x.js\<close>, not the index file.
\<close>

theorem lib_alias_literal_counterexample:
  "\<not> existsSync (host [(''/p/src/lib/x.js'', textFile [])]) ''/p/src/lib/x.ts''
   \<and> \<not> existsSync (host [(''/p/src/lib/x.js'', textFile [])]) ''/p/src/lib/x/index.ts''
   \<and> resolveImportPath (host [(''/p/src/lib/x.js'', textFile [])])
        (mkConfig (settings None False)) ''/p'' ''$lib/x'' ''/p/r.ts'' = Some ''/p/src/lib/x.js''
   \<and> existsSync (host [(''/p/src/lib/x'', textFile []), (''/p/src/lib/x.ts'', textFile [])])
        ''/p/src/lib/x.ts''
   \<and> statIsFile (host [(''/p/src/lib/x'', textFile []), (''/p/src/lib/x.ts'', textFile [])])
        ''/p/src/lib/x.ts''
   \<and> \<not> shouldExclude (mkConfig (settings None False)) ''/p/src/lib/x.ts''
   \<and> resolveImportPath (host [(''/p/src/lib/x'', textFile []), (''/p/src/lib/x.ts'', textFile [])])
        (mkConfig (settings None False)) ''/p'' ''$lib/x'' ''/p/r.ts'' = Some ''/p/src/lib/x''
   \<and> \<not> existsSync (host [(''/p/src/lib/x.js'', textFile []), (''/p/src/lib/x/index.ts'', textFile [])])
        ''/p/src/lib/x.ts''
   \<and> existsSync (host [(''/p/src/lib/x.js'', textFile []), (''/p/src/lib/x/index.ts'', textFile [])])
        ''/p/src/lib/x/index.ts''
   \<and> \<not> shouldExclude (mkConfig (settings None False)) ''/p/src/lib/x/index.ts''
   \<and> resolveImportPath
        (host [(''/p/src/lib/x.js'', textFile []), (''/p/src/lib/x/index.ts'', textFile [])])
        (mkConfig (settings None False)) ''/p'' ''$lib/x'' ''/p/r.ts'' = Some ''/p/src/lib/x.js''"
  by (simp add: resolve_eval cfg_eval path_eval host_def textFile_def)

section \<open>Runs of the traversal on the example project\<close>

text \<open>The parts of a run on the example project, each evaluated once.\<close>


lemmas parse_eval = parseImports_def extractImportsFromLine_def extractScriptFromSvelte_def
  importPatterns_def isValidImportPath_def uniqueInOrder_def jsMatches_def quoted_def
  fromQuoted_def requireCall_def isQuote_def
  importLine_def importLines_def trim_def isSpace_def contains_def sublist_code

text \<open>The expressions on lines of the usual forms.\<close>

lemma jsMatches_lines:
  "jsMatches ES6Import (''import { x } from '' @ [CHR 0x27] @ ''./a'' @ [CHR 0x27] @ '';'') = [''./a'']"
  "jsMatches SideEffect (''import { x } from '' @ [CHR 0x27] @ ''./a'' @ [CHR 0x27] @ '';'') = []"
  "jsMatches TypeImport (''import type { T } from '' @ [CHR 0x27] @ ''./m'' @ [CHR 0x27]) = [''./m'']"
  "jsMatches DynamicImport (''const m = await import('' @ [CHR 0x27] @ ''./m'' @ [CHR 0x27] @ '')'')
     = [''./m'']"
  "jsMatches ReExport (''export * from '' @ [CHR 0x27] @ ''./m'' @ [CHR 0x27]) = [''./m'']"
  "jsMatches CommonJSAssign (''const fs = require('' @ [CHR 0x27] @ ''fs'' @ [CHR 0x27] @ '')'')
     = [''fs'']"
  "jsMatches DirectRequire
     (''f(require('' @ [CHR 0x27] @ ''a'' @ [CHR 0x27] @ ''), require('' @ [CHR 0x22] @ ''b''
        @ [CHR 0x22] @ ''))'') = [''a'', ''b'']"
  "jsMatches SideEffect (importLine ''./a'') = [''./a'']"
  "jsMatches ES6Import (importLine ''./a'') = []"
  by (simp_all add: jsMatches_def quoted_def fromQuoted_def requireCall_def isQuote_def
      isSpace_def importLine_def)

lemma fi_content_textInfo: "fi_content (textInfo text) = text"
  by (simp add: textInfo_def)

lemma resolved_paths:
  "path_resolve ''/home'' [''/p/r.ts''] = ''/p/r.ts''"
  "path_resolve ''/home'' [''/p/a.ts''] = ''/p/a.ts''"
  "path_resolve ''/home'' [''/p/b.ts''] = ''/p/b.ts''"
  "path_resolve ''/home'' [''/p/c.ts''] = ''/p/c.ts''"
  "path_resolve ''/home'' [''/p/e.ts''] = ''/p/e.ts''"
  "path_resolve ''/home'' [''/p/f.ts''] = ''/p/f.ts''"
  "path_resolve ''/home'' [''/p/gone.ts''] = ''/p/gone.ts''"
  "path_resolve ''/home'' [''/p/node_modules/lodash/index.js''] = ''/p/node_modules/lodash/index.js''"
  by (simp_all add: path_eval)

lemma relative_paths:
  "path_relative ''/home'' ''/p'' ''/p/r.ts'' = ''r.ts''"
  "path_relative ''/home'' ''/p'' ''/p/a.ts'' = ''a.ts''"
  "path_relative ''/home'' ''/p'' ''/p/b.ts'' = ''b.ts''"
  "path_relative ''/home'' ''/p'' ''/p/c.ts'' = ''c.ts''"
  "path_relative ''/home'' ''/p'' ''/p/e.ts'' = ''e.ts''"
  "path_relative ''/home'' ''/p'' ''/p/f.ts'' = ''f.ts''"
  "path_relative ''/home'' ''/p'' ''/p/gone.ts'' = ''gone.ts''"
  "path_relative ''/home'' ''/p'' ''/p/node_modules/lodash/index.js'' = ''node_modules/lodash/index.js''"
  by (simp_all add: path_eval)

lemma project_exists:
  "existsSync (host project) ''/p/r.ts''"
  "existsSync (host project) ''/p/a.ts''"
  "existsSync (host project) ''/p/b.ts''"
  "existsSync (host project) ''/p/c.ts''"
  "existsSync (host project) ''/p/e.ts''"
  "existsSync (host project) ''/p/f.ts''"
  "existsSync (host project) ''/p/node_modules/lodash/index.js''"
  "\<not> existsSync (host project) ''/p/gone.ts''"
  by (simp_all add: existsSync_def host_eval)

lemma project_resolves:
  "resolveImportPath (host project) (mkConfig (settings lim ext)) ''/p'' ''./a'' ''/p/r.ts'' = Some ''/p/a.ts''"
  "resolveImportPath (host project) (mkConfig (settings lim ext)) ''/p'' ''./c'' ''/p/r.ts'' = Some ''/p/c.ts''"
  "resolveImportPath (host project) (mkConfig (settings lim ext)) ''/p'' ''./b'' ''/p/a.ts'' = Some ''/p/b.ts''"
  "resolveImportPath (host project) (mkConfig (settings lim ext)) ''/p'' ''./c'' ''/p/b.ts'' = Some ''/p/c.ts''"
  "resolveImportPath (host project) (mkConfig (settings lim True)) ''/p'' ''lodash'' ''/p/e.ts'' =
     Some ''/p/node_modules/lodash/index.js''"
  "resolveImportPath (host project) (mkConfig (settings lim False)) ''/p'' ''lodash'' ''/p/e.ts'' = None"
  "resolveImportPath (host project) (mkConfig (settings lim ext)) ''/p'' ''left-pad'' ''/p/e.ts'' = None"
  "resolveImportPath (host project) (mkConfig (settings lim ext)) ''/p'' ''$libbar'' ''/p/f.ts'' = None"
  by (simp_all add: resolve_eval cfg_eval path_eval host_eval)

lemma project_info:
  "getFileInfo (host project) (mkConfig (settings lim ext)) ''/p/r.ts'' =
     textInfo (importLines [''./a'', ''./c''])"
  "getFileInfo (host project) (mkConfig (settings lim ext)) ''/p/a.ts'' = textInfo (importLines [''./b''])"
  "getFileInfo (host project) (mkConfig (settings lim ext)) ''/p/b.ts'' = textInfo (importLines [''./c''])"
  "getFileInfo (host project) (mkConfig (settings lim ext)) ''/p/c.ts'' = textInfo ''export const c = 1''"
  "getFileInfo (host project) (mkConfig (settings lim ext)) ''/p/e.ts'' =
     textInfo (importLines [''lodash'', ''left-pad''])"
  "getFileInfo (host project) (mkConfig (settings lim ext)) ''/p/f.ts'' =
     textInfo (importLines [''$libbar''])"
  "getFileInfo (host project) (mkConfig (settings lim ext)) ''/p/node_modules/lodash/index.js'' =
     textInfo ''module.exports = {}''"
  by (simp_all add: getFileInfo_def host_eval isBinaryFile_def binaryExtensions_def path_eval
      toLowerCase_def cfg_fields textInfo_def importLine_def importLines_def)

lemma project_imports:
  "parseImports (host fs) (importLines [''./a'', ''./c'']) ''r.ts'' = [''./a'', ''./c'']"
  "parseImports (host fs) (importLines [''./b'']) ''a.ts'' = [''./b'']"
  "parseImports (host fs) (importLines [''./c'']) ''b.ts'' = [''./c'']"
  "parseImports (host fs) ''export const c = 1'' ''c.ts'' = []"
  "parseImports (host fs) (importLines [''lodash'', ''left-pad'']) ''e.ts'' = [''lodash'', ''left-pad'']"
  "parseImports (host fs) (importLines [''$libbar'']) ''f.ts'' = [''$libbar'']"
  "parseImports (host fs) ''module.exports = {}'' ''node_modules/lodash/index.js'' = []"
  by (simp_all add: parse_eval host_def)

lemma fresh_extractor:
  "newExtractor (host fs) (settings lim ext) =
     \<lparr> rootDir = ''/p'', visited = [], circularDeps = [], allFiles = [], unresolved = [] \<rparr>"
  by (simp add: newExtractor_def settings_def host_def)

lemma host_cwd: "cwd (host fs) = ''/home''"
  by (simp add: host_def)

lemmas walk_eval = extractDependencies.simps Let_def host_cwd
  resolved_paths relative_paths project_exists project_imports project_resolves
  project_info fi_content_textInfo cfg_fields fresh_extractor
  processImport_def truthy_def visitedHas_def visitedAtOrAbove_def exceeds_def set_add_def
  numeral_2_eq_2 numeral_3_eq_3

section \<open>Specifiers that start with an alias key\<close>

lemma processImport_unresolved:
  assumes "resolveImportPath e cfg (rootDir st) imp rp = None"
  shows "processImport recurse e cfg rp rel d imp (deps, st) =
           (if includeExternal cfg then Some (deps @ [externalLeaf imp (d + 1)], st)
            else Some (deps, st\<lparr> unresolved := set_add imp (unresolved st) \<rparr>))"
  using assms by (simp add: processImport_def truthy_def)

text \<open>
  C10, as the code has it. The alias strategy claims a specifier exactly when some key of
  the alias table is a prefix of it; nothing asks for a path separator after the key.
  The result for a claimed specifier is decided by the first key, in the order of the
  table, that starts it: when that key stands for a project path, the specifier is
  resolved, by extension and index resolution, against the root joined with the target
  followed by the rest of the specifier, and the result depends neither on the module
  loader nor on external inclusion; when it stands for a SvelteKit module, the result is
  what the module loader gives for the target under external inclusion, and \<open>null\<close>
  without it. A claimed specifier for which the result is \<open>null\<close> is treated by the
  traversal as every other unresolved specifier: it becomes an external leaf when
  external inclusion is on, and is added to the unresolved set when it is off.
\<close>

theorem alias_prefix_matching:
  "(isSvelteAlias cfg imp \<longleftrightarrow> (\<exists>a \<in> set (svelteAliases cfg). prefix (fst a) imp))
   \<and> (isSvelteAlias cfg imp \<longrightarrow>
        (\<exists>k t. find (\<lambda>a. prefix (fst a) imp) (svelteAliases cfg) = Some (k, t)
           \<and> resolveImportPath e cfg root imp fromFile =
               (if prefix ''@sveltejs/kit'' t
                then (if includeExternal cfg then requireResolve e t None else None)
                else tryResolveWithExtensions e cfg
                       (path_resolve (cwd e) [root, t @ drop (length k) imp]))))
   \<and> (\<forall>k t. find (\<lambda>a. prefix (fst a) imp) (svelteAliases cfg) = Some (k, t)
              \<and> \<not> prefix ''@sveltejs/kit'' t \<longrightarrow>
        resolveImportPath (e\<lparr> requireResolve := loader \<rparr>) (cfg\<lparr> includeExternal := b \<rparr>)
          root imp fromFile = resolveImportPath e cfg root imp fromFile)
   \<and> (isSvelteAlias cfg imp \<and> resolveImportPath e cfg (rootDir st) imp rp = None \<longrightarrow>
        processImport recurse e cfg rp rel d imp (deps, st) =
          (if includeExternal cfg then Some (deps @ [externalLeaf imp (d + 1)], st)
           else Some (deps, st\<lparr> unresolved := set_add imp (unresolved st) \<rparr>)))"
proof (intro conjI allI impI)
  show "isSvelteAlias cfg imp \<longleftrightarrow> (\<exists>a \<in> set (svelteAliases cfg). prefix (fst a) imp)"
    by (auto simp: isSvelteAlias_def list_ex_iff)
next
  assume "isSvelteAlias cfg imp"
  then obtain k t where f: "find (\<lambda>a. prefix (fst a) imp) (svelteAliases cfg) = Some (k, t)"
    by (auto simp: isSvelteAlias_find)
  have "isSvelteAlias cfg imp" using f by (simp add: isSvelteAlias_find)
  then have "resolveImportPath e cfg root imp fromFile =
               (if prefix ''@sveltejs/kit'' t
                then (if includeExternal cfg then requireResolve e t None else None)
                else tryResolveWithExtensions e cfg
                       (path_resolve (cwd e) [root, t @ drop (length k) imp]))"
    using f by (simp add: resolveImportPath_def resolveSvelteAlias_def resolveSvelteAliasLoop_find)
  with f show "\<exists>k t. find (\<lambda>a. prefix (fst a) imp) (svelteAliases cfg) = Some (k, t)
           \<and> resolveImportPath e cfg root imp fromFile =
               (if prefix ''@sveltejs/kit'' t
                then (if includeExternal cfg then requireResolve e t None else None)
                else tryResolveWithExtensions e cfg
                       (path_resolve (cwd e) [root, t @ drop (length k) imp]))"
    by blast
next
  fix k t
  assume a: "find (\<lambda>a. prefix (fst a) imp) (svelteAliases cfg) = Some (k, t)
              \<and> \<not> prefix ''@sveltejs/kit'' t"
  then have f: "find (\<lambda>a. prefix (fst a) imp) (svelteAliases cfg) = Some (k, t)"
    and t: "\<not> prefix ''@sveltejs/kit'' t" by simp_all
  have "find (\<lambda>a. prefix (fst a) imp) (svelteAliases (cfg\<lparr> includeExternal := b \<rparr>)) = Some (k, t)"
    using f by simp
  from alias_to_project_path [OF this t]
  have "resolveImportPath (e\<lparr> requireResolve := loader \<rparr>) (cfg\<lparr> includeExternal := b \<rparr>)
          root imp fromFile =
        tryResolveWithExtensions (e\<lparr> requireResolve := loader \<rparr>) (cfg\<lparr> includeExternal := b \<rparr>)
          (path_resolve (cwd e) [root, t @ drop (length k) imp])"
    by simp
  also have "\<dots> = tryResolveWithExtensions e cfg
                     (path_resolve (cwd e) [root, t @ drop (length k) imp])"
    by (rule tryResolve_files) simp_all
  also have "\<dots> = resolveImportPath e cfg root imp fromFile"
    using f t by (rule alias_to_project_path [symmetric])
  finally show "resolveImportPath (e\<lparr> requireResolve := loader \<rparr>) (cfg\<lparr> includeExternal := b \<rparr>)
                  root imp fromFile = resolveImportPath e cfg root imp fromFile" .
next
  assume "isSvelteAlias cfg imp \<and> resolveImportPath e cfg (rootDir st) imp rp = None"
  then show "processImport recurse e cfg rp rel d imp (deps, st) =
          (if includeExternal cfg then Some (deps @ [externalLeaf imp (d + 1)], st)
           else Some (deps, st\<lparr> unresolved := set_add imp (unresolved st) \<rparr>))"
    by (simp add: processImport_unresolved)
qed

text \<open>
  With the default aliases, \<open>$libfoo\<close> starts with \<open>$lib\<close> and is looked up as
  \<open>/p/src/libfoo\<close>; the example project has \<open>/p/src/libfoo.ts\<close>. The specifier
  \<open>$libbar\<close> is claimed by the same alias and finds no file; in the loop of \<open>f.ts\<close> it
  becomes an external leaf under external inclusion, and an entry of the unresolved set
  without it. No key starts \<open>lodash\<close>, which the alias strategy does not claim.
\<close>

theorem alias_prefix_matching_witness:
  "isSvelteAlias (mkConfig (settings None True)) ''$libfoo''
   \<and> \<not> isSvelteAlias (mkConfig (settings None True)) ''lodash''
   \<and> resolveImportPath (host project) (mkConfig (settings None True)) ''/p'' ''$libfoo''
       ''/p/r.ts'' = Some ''/p/src/libfoo.ts''
   \<and> resolveImportPath (host project\<lparr> requireResolve := (\<lambda>request dir. Some request) \<rparr>)
        ((mkConfig (settings None True))\<lparr> includeExternal := False \<rparr>) ''/p'' ''$libfoo''
        ''/p/r.ts'' = Some ''/p/src/libfoo.ts''
   \<and> processImport (extractDependencies (Suc 0) (host project) (mkConfig (settings None True)))
        (host project) (mkConfig (settings None True)) ''/p/f.ts'' ''f.ts'' 0
        ''$libbar'' ([], newExtractor (host project) (settings None True))
        = Some ([externalLeaf ''$libbar'' 1], newExtractor (host project) (settings None True))
   \<and> processImport (extractDependencies (Suc 0) (host project) (mkConfig (settings None False)))
        (host project) (mkConfig (settings None False)) ''/p/f.ts'' ''f.ts'' 0
        ''$libbar'' ([], newExtractor (host project) (settings None False))
        = Some ([], (newExtractor (host project) (settings None False))
                      \<lparr> unresolved := [''$libbar''] \<rparr>)"
proof -
  let ?on = "mkConfig (settings None True)"
  let ?off = "mkConfig (settings None False)"
  let ?st = "\<lambda>ext. newExtractor (host project) (settings None ext)"
  have keys: "\<exists>a \<in> set (svelteAliases ?on). prefix (fst a) ''$libfoo''"
    "\<not> (\<exists>a \<in> set (svelteAliases ?on). prefix (fst a) ''lodash'')"
    "\<exists>a \<in> set (svelteAliases (mkConfig (settings None ext))). prefix (fst a) ''$libbar''" for ext
    by (simp_all add: cfg_eval)
  have f: "find (\<lambda>a. prefix (fst a) ''$libfoo'') (svelteAliases ?on) = Some (''$lib'', ''src/lib'')"
    by (simp add: cfg_eval)
  have t: "\<not> prefix ''@sveltejs/kit'' ''src/lib''" by simp
  have p: "path_resolve (cwd (host project)) [''/p'', ''src/lib'' @ drop (length ''$lib'') ''$libfoo'']
             = ''/p/src/libfoo''"
    by (simp add: path_eval host_def)
  have r: "tryResolveWithExtensions (host project) ?on ''/p/src/libfoo'' = Some ''/p/src/libfoo.ts''"
    by (simp add: resolve_eval cfg_eval path_eval host_eval)
  have n: "resolveImportPath (host project) (mkConfig (settings None ext))
             (rootDir (?st ext)) ''$libbar'' ''/p/f.ts'' = None" for ext
    by (simp add: fresh_extractor project_resolves)
  note matching = alias_prefix_matching
  have 1: "isSvelteAlias ?on ''$libfoo''"
    using matching [where cfg = ?on and imp = "''$libfoo''", THEN conjunct1] keys(1) by simp
  have 2: "\<not> isSvelteAlias ?on ''lodash''"
    using matching [where cfg = ?on and imp = "''lodash''", THEN conjunct1] keys(2) by simp
  have 3: "resolveImportPath (host project) ?on ''/p'' ''$libfoo'' ''/p/r.ts''
             = Some ''/p/src/libfoo.ts''"
    using matching [where cfg = ?on and imp = "''$libfoo''" and e = "host project" and root = "''/p''"
        and fromFile = "''/p/r.ts''", THEN conjunct2, THEN conjunct1] 1 f t p r
    by simp
  have 4: "resolveImportPath (host project\<lparr> requireResolve := (\<lambda>request dir. Some request) \<rparr>)
        (?on\<lparr> includeExternal := False \<rparr>) ''/p'' ''$libfoo'' ''/p/r.ts''
        = Some ''/p/src/libfoo.ts''"
    using matching [where cfg = ?on and imp = "''$libfoo''" and e = "host project" and root = "''/p''"
        and fromFile = "''/p/r.ts''" and loader = "\<lambda>request dir. Some request" and b = False,
        THEN conjunct2, THEN conjunct2, THEN conjunct1] f t 3
    by simp
  have 5: "processImport (extractDependencies (Suc 0) (host project) ?on) (host project) ?on ''/p/f.ts'' ''f.ts'' 0 ''$libbar''
             ([], ?st True) = Some ([externalLeaf ''$libbar'' 1], ?st True)"
    using matching [where cfg = ?on and imp = "''$libbar''" and e = "host project" and st = "?st True"
        and rp = "''/p/f.ts''" and rel = "''f.ts''" and d = 0 and deps = "[]" and recurse = "extractDependencies (Suc 0) (host project) ?on",
        THEN conjunct2, THEN conjunct2, THEN conjunct2]
      matching [where cfg = ?on and imp = "''$libbar''", THEN conjunct1] keys(3) [of True] n [of True]
    by (simp add: cfg_fields)
  have 6: "processImport (extractDependencies (Suc 0) (host project) ?off) (host project) ?off ''/p/f.ts'' ''f.ts'' 0 ''$libbar''
             ([], ?st False) = Some ([], (?st False)\<lparr> unresolved := [''$libbar''] \<rparr>)"
    using matching [where cfg = ?off and imp = "''$libbar''" and e = "host project" and st = "?st False"
        and rp = "''/p/f.ts''" and rel = "''f.ts''" and d = 0 and deps = "[]" and recurse = "extractDependencies (Suc 0) (host project) ?off",
        THEN conjunct2, THEN conjunct2, THEN conjunct2]
      matching [where cfg = ?off and imp = "''$libbar''", THEN conjunct1] keys(3) [of False] n [of False]
    by (simp add: cfg_fields fresh_extractor set_add_def)
  from 1 2 3 4 5 6 show ?thesis by simp
qed

text \<open>
  Two runs against the specification as it is written. In the example project \<open>f.ts\<close> imports
  \<open>$libbar\<close>, which the alias \<open>$lib\<close> claims and for which no file is found: with
  external inclusion the tree of \<open>f.ts\<close> has it as a child with \<open>external\<close> set, and
  without external inclusion it is in the unresolved set. With the alias \<open>$app\<close>, for a
  SvelteKit module, before the alias \<open>$application\<close> for \<open>src/application\<close>, the
  specifier \<open>$application/x\<close> starts with a key that stands for a project path, and the
  file \<open>/p/src/application/x.ts\<close> exists; the result is \<open>null\<close>.
\<close>

theorem alias_claimed_counterexample:
  "isSvelteAlias (mkConfig (settings None True)) ''$libbar''
   \<and> map_option fst
        (extractDependencies (Suc (Suc 0)) (host project) (mkConfig (settings None True))
           (newExtractor (host project) (settings None True)) ''/p/f.ts'' 0)
       = Some (Some (fileResult ''f.ts'' ''/p/f.ts'' 0 (textInfo (importLines [''$libbar''])) 1
                 [externalLeaf ''$libbar'' 1]))
   \<and> external (info (externalLeaf ''$libbar'' 1))
   \<and> map_option (unresolved \<circ> snd)
        (extractDependencies (Suc (Suc 0)) (host project) (mkConfig (settings None False))
           (newExtractor (host project) (settings None False)) ''/p/f.ts'' 0)
       = Some [''$libbar'']
   \<and> prefix ''$application'' ''$application/x''
   \<and> (''$application'', ''src/application'') \<in> set (svelteAliases (mkConfig overlappingAliases))
   \<and> tryResolveWithExtensions (host [(''/p/src/application/x.ts'', textFile [])])
         (mkConfig overlappingAliases)
         (path_resolve ''/home'' [''/p'', ''src/application'' @ ''/x''])
       = Some ''/p/src/application/x.ts''
   \<and> resolveImportPath (host [(''/p/src/application/x.ts'', textFile [])])
         (mkConfig overlappingAliases) ''/p'' ''$application/x'' ''/p/r.ts'' = None"
proof -
  have 1: "isSvelteAlias (mkConfig (settings None True)) ''$libbar''"
    by (simp add: isSvelteAlias_def cfg_eval)
  have 2: "map_option fst
        (extractDependencies (Suc (Suc 0)) (host project) (mkConfig (settings None True))
           (newExtractor (host project) (settings None True)) ''/p/f.ts'' 0)
       = Some (Some (fileResult ''f.ts'' ''/p/f.ts'' 0 (textInfo (importLines [''$libbar''])) 1
                 [externalLeaf ''$libbar'' 1]))"
    by (simp add: walk_eval split del: if_split)
  have 3: "external (info (externalLeaf ''$libbar'' 1))"
    by (simp add: externalLeaf_def)
  have 4: "map_option (unresolved \<circ> snd)
        (extractDependencies (Suc (Suc 0)) (host project) (mkConfig (settings None False))
           (newExtractor (host project) (settings None False)) ''/p/f.ts'' 0)
       = Some [''$libbar'']"
    by (simp add: walk_eval split del: if_split)
  have cfg: "svelteAliases (mkConfig overlappingAliases)
               = [(''$app'', ''@sveltejs/kit''), (''$application'', ''src/application'')]"
    "extensions (mkConfig overlappingAliases) = default_extensions"
    "excludePatterns (mkConfig overlappingAliases) = default_excludePatterns"
    "includeExternal (mkConfig overlappingAliases) = False"
    by (simp_all add: overlappingAliases_def mkConfig_def settings_def)
  have 5: "tryResolveWithExtensions (host [(''/p/src/application/x.ts'', textFile [])])
         (mkConfig overlappingAliases)
         (path_resolve ''/home'' [''/p'', ''src/application'' @ ''/x''])
       = Some ''/p/src/application/x.ts''"
    by (simp add: resolve_eval cfg cfg_eval path_eval host_def textFile_def)
  have 6: "resolveImportPath (host [(''/p/src/application/x.ts'', textFile [])])
         (mkConfig overlappingAliases) ''/p'' ''$application/x'' ''/p/r.ts'' = None"
    by (simp add: resolveImportPath_def isSvelteAlias_def resolveSvelteAlias_def cfg)
  from 1 2 3 4 5 6 show ?thesis by (simp add: cfg)
qed

section \<open>Properties of the traversal\<close>

subsection \<open>The visited table along a run\<close>

lemma tableStep_refl: "tableStep d st st"
  by (auto simp: tableStep_def split: option.splits)

lemma tableStep_same_table:
  "visited st' = visited st \<Longrightarrow> rootDir st' = rootDir st \<Longrightarrow> tableStep d st st'"
  by (auto simp: tableStep_def split: option.splits)

lemma tableStep_trans:
  assumes "tableStep d st st1" "tableStep d' st1 st2" "d \<le> d'"
  shows "tableStep d st st2"
  unfolding tableStep_def
proof (intro conjI allI)
  show "rootDir st2 = rootDir st" using assms by (simp add: tableStep_def)
next
  fix k
  from assms(1) have a: "case map_of (visited st) k of
             None \<Rightarrow> (\<forall>v. map_of (visited st1) k = Some v \<longrightarrow> d \<le> v)
           | Some u \<Rightarrow> (\<exists>v. map_of (visited st1) k = Some v \<and> v \<le> u \<and> (v = u \<or> d \<le> v))"
    by (simp add: tableStep_def)
  from assms(2) have b: "case map_of (visited st1) k of
             None \<Rightarrow> (\<forall>v. map_of (visited st2) k = Some v \<longrightarrow> d' \<le> v)
           | Some u \<Rightarrow> (\<exists>v. map_of (visited st2) k = Some v \<and> v \<le> u \<and> (v = u \<or> d' \<le> v))"
    by (simp add: tableStep_def)
  show "case map_of (visited st) k of
             None \<Rightarrow> (\<forall>v. map_of (visited st2) k = Some v \<longrightarrow> d \<le> v)
           | Some u \<Rightarrow> (\<exists>v. map_of (visited st2) k = Some v \<and> v \<le> u \<and> (v = u \<or> d \<le> v))"
    using a b assms(3) by (cases "map_of (visited st) k"; cases "map_of (visited st1) k") force+
qed

lemma tableStep_mark:
  assumes "\<not> visitedAtOrAbove st p d"
  shows "tableStep d st (st\<lparr> visited := AList.update p d (visited st) \<rparr>)"
  using assms
  by (auto simp: tableStep_def visitedAtOrAbove_def update_conv' split: option.splits)

lemma processImport_tableStep:
  assumes rec: "\<And>s p r s'. recurse s p (Suc d) = Some (r, s') \<Longrightarrow> tableStep (Suc d) s s'"
      and "processImport recurse e cfg rp rel d imp (deps, st) = Some (deps', st')"
  shows "tableStep (Suc d) st st'"
  using assms(2)
  by (auto simp: processImport_def Let_def tableStep_same_table
      split: if_splits option.splits prod.splits dest: rec)

lemma processImports_tableStep:
  assumes rec: "\<And>s p r s'. recurse s p (Suc d) = Some (r, s') \<Longrightarrow> tableStep (Suc d) s s'"
      and "processImports recurse e cfg rp rel d imps (deps, st) = Some (deps', st')"
  shows "tableStep (Suc d) st st'"
  using assms(2)
proof (induction imps arbitrary: deps st)
  case Nil
  then show ?case by (simp add: tableStep_refl)
next
  case (Cons i rest)
  from Cons.prems obtain deps1 st1 where
    1: "processImport recurse e cfg rp rel d i (deps, st) = Some (deps1, st1)" and
    2: "processImports recurse e cfg rp rel d rest (deps1, st1) = Some (deps', st')"
    by (auto split: option.splits)
  from processImport_tableStep [OF rec 1] have "tableStep (Suc d) st st1" by simp
  moreover from Cons.IH [OF 2] have "tableStep (Suc d) st1 st'" .
  ultimately show ?case by (rule tableStep_trans) simp
qed

lemma extractDependencies_tableStep:
  "extractDependencies fuel e cfg st p d = Some (r, st') \<Longrightarrow> tableStep d st st'"
proof (induction fuel arbitrary: st p d r st')
  case 0
  then show ?case by simp
next
  case (Suc fuel)
  let ?rp = "path_resolve (cwd e) [p]"
  let ?st1 = "st\<lparr> visited := AList.update ?rp d (visited st) \<rparr>"
  show ?case
  proof (cases "exceeds d (maxDepth cfg) \<or> visitedAtOrAbove st ?rp d \<or> \<not> existsSync e ?rp")
    case True
    with Suc.prems have "st' = st" by (auto simp: extractDependencies.simps Let_def split: if_splits)
    then show ?thesis by (simp add: tableStep_refl)
  next
    case False
    with Suc.prems obtain deps st2 where
      loop: "processImports (extractDependencies fuel e cfg) e cfg ?rp
               (path_relative (cwd e) (rootDir st) ?rp) d
               (parseImports e (fi_content (getFileInfo e cfg ?rp))
                  (path_relative (cwd e) (rootDir st) ?rp)) ([], ?st1) = Some (deps, st2)"
      and st': "visited st' = visited st2" "rootDir st' = rootDir st2"
      by (auto simp: extractDependencies.simps Let_def split: option.splits)
    from False have "tableStep d st ?st1" by (simp add: tableStep_mark)
    moreover have "tableStep (Suc d) ?st1 st2"
      by (rule processImports_tableStep [OF _ loop]) (rule Suc.IH)
    moreover from st' have "tableStep (Suc d) st2 st'" by (simp add: tableStep_same_table)
    ultimately show ?thesis by (meson tableStep_trans le_refl Suc_n_not_le_n nat_le_linear)
  qed
qed


subsection \<open>The traversal returns\<close>

lemma finite_openFiles: "finite (openFiles e st d)"
  by (simp add: openFiles_def)

lemma card_openFiles_le: "card (openFiles e st d) \<le> length (files e)"
proof -
  have "openFiles e st d \<subseteq> fst ` set (files e)" by (auto simp: openFiles_def)
  then have "card (openFiles e st d) \<le> card (fst ` set (files e))"
    by (simp add: card_mono)
  also have "\<dots> \<le> card (set (files e))" by (simp add: card_image_le)
  also have "\<dots> \<le> length (files e)" by (rule card_length)
  finally show ?thesis .
qed

lemma tableStep_visitedAtOrAbove:
  "tableStep d' st st' \<Longrightarrow> visitedAtOrAbove st q d \<Longrightarrow> visitedAtOrAbove st' q d"
  by (fastforce simp: tableStep_def visitedAtOrAbove_def split: option.splits)

lemma openFiles_tableStep:
  "tableStep d' st st' \<Longrightarrow> openFiles e st' d \<subseteq> openFiles e st d"
  by (auto simp: openFiles_def dest: tableStep_visitedAtOrAbove)

lemma card_openFiles_tableStep:
  "tableStep d' st st' \<Longrightarrow> card (openFiles e st' d) \<le> card (openFiles e st d)"
  by (simp add: card_mono finite_openFiles openFiles_tableStep)

lemma existsSync_fst: "existsSync e p \<longleftrightarrow> p \<in> fst ` set (files e)"
  by (simp add: existsSync_def map_of_eq_None_iff)

lemma openFiles_mark:
  assumes "existsSync e p" "\<not> visitedAtOrAbove st p d"
  shows "card (openFiles e (st\<lparr> visited := AList.update p d (visited st) \<rparr>) (Suc d))
           < card (openFiles e st d)"
proof (rule psubset_card_mono)
  show "finite (openFiles e st d)" by (rule finite_openFiles)
  let ?st1 = "st\<lparr> visited := AList.update p d (visited st) \<rparr>"
  have in_old: "p \<in> openFiles e st d" using assms by (simp add: openFiles_def existsSync_fst)
  have "visitedAtOrAbove ?st1 p (Suc d)" by (simp add: visitedAtOrAbove_def update_conv')
  then have not_new: "p \<notin> openFiles e ?st1 (Suc d)" by (simp add: openFiles_def)
  have "openFiles e ?st1 (Suc d) \<subseteq> openFiles e st d"
    by (auto simp: openFiles_def visitedAtOrAbove_def update_conv' split: option.splits if_splits)
  with in_old not_new show "openFiles e ?st1 (Suc d) \<subset> openFiles e st d" by blast
qed

lemma processImport_returns:
  assumes rec: "\<And>s p. card (openFiles e s (Suc d)) < n \<Longrightarrow> recurse s p (Suc d) \<noteq> None"
      and small: "card (openFiles e st (Suc d)) < n"
  shows "processImport recurse e cfg rp rel d imp (deps, st) \<noteq> None"
proof -
  have "recurse st (the (resolveImportPath e cfg (rootDir st) imp rp)) (Suc d) \<noteq> None"
    using small by (rule rec)
  then show ?thesis
    by (auto simp: processImport_def Let_def split: option.splits prod.splits)
qed

lemma processImports_returns:
  assumes rec: "\<And>s p. card (openFiles e s (Suc d)) < n \<Longrightarrow> recurse s p (Suc d) \<noteq> None"
      and step: "\<And>s p r s'. recurse s p (Suc d) = Some (r, s') \<Longrightarrow> tableStep (Suc d) s s'"
      and "card (openFiles e st (Suc d)) < n"
  shows "processImports recurse e cfg rp rel d imps (deps, st) \<noteq> None"
  using assms(3)
proof (induction imps arbitrary: deps st)
  case Nil
  then show ?case by simp
next
  case (Cons i rest)
  have "processImport recurse e cfg rp rel d i (deps, st) \<noteq> None"
    using rec Cons.prems by (rule processImport_returns)
  then obtain deps1 st1 where
    1: "processImport recurse e cfg rp rel d i (deps, st) = Some (deps1, st1)"
    by (cases "processImport recurse e cfg rp rel d i (deps, st)") auto
  from processImport_tableStep [OF step 1] have "tableStep (Suc d) st st1" by simp
  from card_openFiles_tableStep [OF this] Cons.prems
  have "card (openFiles e st1 (Suc d)) < n" by (meson le_less_trans)
  from Cons.IH [OF this] 1 show ?case by simp
qed

lemma extractDependencies_returns_open:
  "card (openFiles e st d) < fuel \<Longrightarrow> extractDependencies fuel e cfg st p d \<noteq> None"
proof (induction fuel arbitrary: st p d)
  case 0
  then show ?case by simp
next
  case (Suc fuel)
  let ?rp = "path_resolve (cwd e) [p]"
  let ?st1 = "st\<lparr> visited := AList.update ?rp d (visited st) \<rparr>"
  show ?case
  proof (cases "exceeds d (maxDepth cfg) \<or> visitedAtOrAbove st ?rp d \<or> \<not> existsSync e ?rp")
    case True
    then show ?thesis by (auto simp: extractDependencies.simps Let_def)
  next
    case False
    then have "card (openFiles e ?st1 (Suc d)) < card (openFiles e st d)"
      by (simp add: openFiles_mark)
    with Suc.prems have small: "card (openFiles e ?st1 (Suc d)) < fuel" by simp
    have "processImports (extractDependencies fuel e cfg) e cfg ?rp
               (path_relative (cwd e) (rootDir st) ?rp) d
               (parseImports e (fi_content (getFileInfo e cfg ?rp))
                  (path_relative (cwd e) (rootDir st) ?rp)) ([], ?st1) \<noteq> None"
      by (rule processImports_returns [OF _ _ small])
         (simp_all add: Suc.IH extractDependencies_tableStep)
    with False show ?thesis by (auto simp: extractDependencies.simps Let_def split: option.splits)
  qed
qed

lemma extractDependencies_returns:
  assumes "length (files e) < fuel"
  shows "\<exists>r st'. extractDependencies fuel e cfg st p d = Some (r, st')"
proof -
  have "card (openFiles e st d) < fuel"
    using card_openFiles_le [of e st d] assms by simp
  from extractDependencies_returns_open [OF this, of cfg p] show ?thesis by auto
qed


subsection \<open>The result of a call\<close>

lemma extractDependencies_exceeds:
  "exceeds d (maxDepth cfg) \<Longrightarrow> extractDependencies (Suc fuel) e cfg st p d = Some (None, st)"
  by (simp add: extractDependencies.simps Let_def)

lemma extractDependencies_node:
  assumes "\<not> exceeds d (maxDepth cfg)"
      and "extractDependencies fuel e cfg st p d = Some (r, st')"
  shows "r \<noteq> None"
proof (cases fuel)
  case 0
  with assms show ?thesis by simp
next
  case (Suc n)
  with assms show ?thesis
    by (auto simp: extractDependencies.simps Let_def split: if_splits option.splits)
qed

lemma extractDependencies_marks:
  assumes "extractDependencies fuel e cfg st p d = Some (Some n, st')"
      and "existsSync e (path_resolve (cwd e) [p])"
  shows "visitedAtOrAbove st' (path_resolve (cwd e) [p]) d"
proof (cases fuel)
  case 0
  with assms show ?thesis by simp
next
  case (Suc k)
  let ?rp = "path_resolve (cwd e) [p]"
  let ?st1 = "st\<lparr> visited := AList.update ?rp d (visited st) \<rparr>"
  show ?thesis
  proof (cases "visitedAtOrAbove st ?rp d")
    case True
    with assms Suc have "st' = st" by (auto simp: extractDependencies.simps Let_def split: if_splits)
    with True show ?thesis by simp
  next
    case False
    with assms Suc obtain deps st2 where
      loop: "processImports (extractDependencies k e cfg) e cfg ?rp
               (path_relative (cwd e) (rootDir st) ?rp) d
               (parseImports e (fi_content (getFileInfo e cfg ?rp))
                  (path_relative (cwd e) (rootDir st) ?rp)) ([], ?st1) = Some (deps, st2)"
      and st': "visited st' = visited st2"
      by (auto simp: extractDependencies.simps Let_def split: if_splits option.splits)
    have "tableStep (Suc d) ?st1 st2"
      by (rule processImports_tableStep [OF _ loop]) (rule extractDependencies_tableStep)
    moreover have "visitedAtOrAbove ?st1 ?rp d"
      by (simp add: visitedAtOrAbove_def update_conv')
    ultimately have "visitedAtOrAbove st2 ?rp d" by (rule tableStep_visitedAtOrAbove)
    with st' show ?thesis by (simp add: visitedAtOrAbove_def)
  qed
qed

lemma extractDependencies_circular:
  assumes "visitedAtOrAbove st (path_resolve (cwd e) [p]) d" "\<not> exceeds d (maxDepth cfg)"
  shows "extractDependencies (Suc fuel) e cfg st p d =
           Some (Some (circularLeaf (path_relative (cwd e) (rootDir st) (path_resolve (cwd e) [p]))
                         (path_resolve (cwd e) [p]) d), st)"
  using assms by (simp add: extractDependencies.simps Let_def)

subsection \<open>The depth limit\<close>



subsection \<open>A second run on the same extractor\<close>

lemma visited_rootDetected: "visited (rootDetected e st filePath) = visited st"
  by (simp add: rootDetected_def)

lemma analyze_rootDetected:
  "analyze fuel e cfg st filePath =
     (case extractDependencies fuel e cfg (rootDetected e st filePath) filePath 0 of
        None \<Rightarrow> None
      | Some (None, st') \<Rightarrow> Some (Inl CouldNotAnalyze, st')
      | Some (Some tree, st') \<Rightarrow> Some (Inr tree, st'))"
  by (simp add: analyze_def rootDetected_def)

lemma visitedAtOrAbove_table:
  "visited st' = visited st \<Longrightarrow> visitedAtOrAbove st' p d = visitedAtOrAbove st p d"
  by (simp add: visitedAtOrAbove_def)

lemma second_run:
  assumes "length (files e) < fuel"
      and "existsSync e (path_resolve (cwd e) [filePath])"
      and "\<not> exceeds 0 (maxDepth cfg)"
  shows "\<exists>tree st1. analyze fuel e cfg st filePath = Some (Inr tree, st1)
           \<and> visitedAtOrAbove st1 (path_resolve (cwd e) [filePath]) 0
           \<and> analyze fuel e cfg st1 filePath =
                Some (Inr (circularLeaf
                             (path_relative (cwd e) (rootDir (rootDetected e st1 filePath))
                                (path_resolve (cwd e) [filePath]))
                             (path_resolve (cwd e) [filePath]) 0),
                      rootDetected e st1 filePath)"
proof -
  let ?rp = "path_resolve (cwd e) [filePath]"
  from extractDependencies_returns [OF assms(1)] obtain r st1 where
    run: "extractDependencies fuel e cfg (rootDetected e st filePath) filePath 0 = Some (r, st1)"
    by blast
  from extractDependencies_node [OF assms(3) run] obtain tree where r: "r = Some tree" by auto
  have run': "extractDependencies fuel e cfg (rootDetected e st filePath) filePath 0
                 = Some (Some tree, st1)"
    using run r by simp
  have res1: "analyze fuel e cfg st filePath = Some (Inr tree, st1)"
    by (simp only: analyze_rootDetected run' option.case prod.case)
  have seen: "visitedAtOrAbove st1 ?rp 0"
    using run' assms(2) by (rule extractDependencies_marks)
  let ?st1' = "rootDetected e st1 filePath"
  let ?leaf = "circularLeaf (path_relative (cwd e) (rootDir ?st1') ?rp) ?rp 0"
  from assms(1) obtain k where k: "fuel = Suc k" by (cases fuel) auto
  have "visitedAtOrAbove ?st1' ?rp 0"
    using seen by (simp only: visitedAtOrAbove_table [OF visited_rootDetected])
  then have "extractDependencies (Suc k) e cfg ?st1' filePath 0 = Some (Some ?leaf, ?st1')"
    using assms(3) by (rule extractDependencies_circular)
  then have "extractDependencies fuel e cfg ?st1' filePath 0 = Some (Some ?leaf, ?st1')"
    by (simp only: k)
  then have res2: "analyze fuel e cfg st1 filePath = Some (Inr ?leaf, ?st1')"
    by (simp only: analyze_rootDetected option.case prod.case)
  from res1 seen res2 show ?thesis by blast
qed

text \<open>
  C9, as the code has it. When the root file exists and the maximum depth is not
  negative, \<open>analyze\<close> returns a tree and leaves the root in the visited table at depth 0;
  run again on the extractor it has left, for the same root file, it returns the root as
  a leaf marked circular, with no children, and does not change the visited table.
\<close>

theorem second_run_is_circular:
  assumes "length (files e) < fuel"
      and "existsSync e (path_resolve (cwd e) [filePath])"
      and "\<not> exceeds 0 (maxDepth cfg)"
  shows "\<exists>tree st1. analyze fuel e cfg st filePath = Some (Inr tree, st1)
           \<and> visitedAtOrAbove st1 (path_resolve (cwd e) [filePath]) 0
           \<and> analyze fuel e cfg st1 filePath =
                Some (Inr (circularLeaf
                             (path_relative (cwd e) (rootDir (rootDetected e st1 filePath))
                                (path_resolve (cwd e) [filePath]))
                             (path_resolve (cwd e) [filePath]) 0),
                      rootDetected e st1 filePath)
           \<and> circular (info (circularLeaf
                             (path_relative (cwd e) (rootDir (rootDetected e st1 filePath))
                                (path_resolve (cwd e) [filePath]))
                             (path_resolve (cwd e) [filePath]) 0))
           \<and> dependencies (circularLeaf
                             (path_relative (cwd e) (rootDir (rootDetected e st1 filePath))
                                (path_resolve (cwd e) [filePath]))
                             (path_resolve (cwd e) [filePath]) 0) = []
           \<and> visited (rootDetected e st1 filePath) = visited st1"
proof -
  have leaf: "circular (info (circularLeaf rel p 0))" "dependencies (circularLeaf rel p 0) = []"
    for rel p
    by (simp_all add: circularLeaf_def emptyInfo_def)
  from second_run [OF assms, of st] obtain tree st1 where
    "analyze fuel e cfg st filePath = Some (Inr tree, st1)"
    "visitedAtOrAbove st1 (path_resolve (cwd e) [filePath]) 0"
    "analyze fuel e cfg st1 filePath =
       Some (Inr (circularLeaf
                    (path_relative (cwd e) (rootDir (rootDetected e st1 filePath))
                       (path_resolve (cwd e) [filePath]))
                    (path_resolve (cwd e) [filePath]) 0),
             rootDetected e st1 filePath)"
    by blast
  with leaf visited_rootDetected show ?thesis by blast
qed

text \<open>The example project: \<open>r.ts\<close> analysed twice on one extractor.\<close>

theorem second_run_is_circular_witness:
  "length (files (host project)) < 11
   \<and> existsSync (host project) (path_resolve (cwd (host project)) [''/p/r.ts''])
   \<and> \<not> exceeds 0 (maxDepth (mkConfig (settings None False)))
   \<and> (\<exists>tree st1.
         analyze 11 (host project) (mkConfig (settings None False))
           (newExtractor (host project) (settings None False)) ''/p/r.ts'' = Some (Inr tree, st1)
         \<and> visitedAtOrAbove st1 ''/p/r.ts'' 0
         \<and> analyze 11 (host project) (mkConfig (settings None False)) st1 ''/p/r.ts''
               = Some (Inr (circularLeaf
                              (path_relative ''/home''
                                 (rootDir (rootDetected (host project) st1 ''/p/r.ts'')) ''/p/r.ts'')
                              ''/p/r.ts'' 0),
                       rootDetected (host project) st1 ''/p/r.ts''))"
proof -
  let ?cfg = "mkConfig (settings None False)"
  let ?st = "newExtractor (host project) (settings None False)"
  have len: "length (files (host project)) < 11" by (simp add: host_def project_def)
  have rp: "path_resolve (cwd (host project)) [''/p/r.ts''] = ''/p/r.ts''"
    by (simp add: host_cwd resolved_paths)
  have ex: "existsSync (host project) (path_resolve (cwd (host project)) [''/p/r.ts''])"
    by (simp add: rp project_exists)
  have lim: "\<not> exceeds 0 (maxDepth ?cfg)" by (simp add: exceeds_def cfg_fields)
  from second_run_is_circular [OF len ex lim, of ?st] obtain tree st1 where
    "analyze 11 (host project) ?cfg ?st ''/p/r.ts'' = Some (Inr tree, st1)"
    "visitedAtOrAbove st1 (path_resolve (cwd (host project)) [''/p/r.ts'']) 0"
    "analyze 11 (host project) ?cfg st1 ''/p/r.ts''
       = Some (Inr (circularLeaf
                      (path_relative (cwd (host project))
                         (rootDir (rootDetected (host project) st1 ''/p/r.ts''))
                         (path_resolve (cwd (host project)) [''/p/r.ts'']))
                      (path_resolve (cwd (host project)) [''/p/r.ts'']) 0),
               rootDetected (host project) st1 ''/p/r.ts'')"
    by blast
  then have "\<exists>tree st1.
         analyze 11 (host project) ?cfg ?st ''/p/r.ts'' = Some (Inr tree, st1)
         \<and> visitedAtOrAbove st1 ''/p/r.ts'' 0
         \<and> analyze 11 (host project) ?cfg st1 ''/p/r.ts''
               = Some (Inr (circularLeaf
                              (path_relative ''/home''
                                 (rootDir (rootDetected (host project) st1 ''/p/r.ts'')) ''/p/r.ts'')
                              ''/p/r.ts'' 0),
                       rootDetected (host project) st1 ''/p/r.ts'')"
    unfolding host_cwd resolved_paths by blast
  with len ex lim show ?thesis by blast
qed

text \<open>
  A root file that is not on disk never enters the visited table: \<open>analyze\<close> returns the
  node for a file not found and leaves the extractor as it was, so a second run on that
  extractor returns the same node, which is not marked circular.
\<close>

theorem second_run_missing_root_counterexample:
  "analyze (Suc 0) (host project) (mkConfig (settings None False))
     (newExtractor (host project) (settings None False)) ''/p/gone.ts''
     = Some (Inr (notFoundNode ''gone.ts'' ''/p/gone.ts'' 0),
             newExtractor (host project) (settings None False))
   \<and> \<not> circular (info (notFoundNode ''gone.ts'' ''/p/gone.ts'' 0))
   \<and> visited (newExtractor (host project) (settings None False)) = []"
  by (simp add: analyze_def walk_eval notFoundNode_def emptyInfo_def split del: if_split)

subsection \<open>When analyze throws\<close>

lemma extractDependencies_missing:
  assumes "\<not> exceeds d (maxDepth cfg)"
      and "\<not> visitedAtOrAbove st (path_resolve (cwd e) [p]) d"
      and "\<not> existsSync e (path_resolve (cwd e) [p])"
  shows "extractDependencies (Suc fuel) e cfg st p d =
           Some (Some (notFoundNode (path_relative (cwd e) (rootDir st) (path_resolve (cwd e) [p]))
                         (path_resolve (cwd e) [p]) d), st)"
  using assms by (simp add: extractDependencies.simps Let_def)

text \<open>
  C2, as the code has it. \<open>analyze\<close> returns, and it throws exactly when depth 0 exceeds
  the maximum depth, which a negative maximum depth brings about; otherwise it returns a
  tree, whether the root file exists or not. For a root file that is not on disk, and
  not in the visited table, the tree is the single node with \<open>exists\<close> false and the
  error \<open>File not found\<close>, and the extractor is left as it was after root detection.
\<close>

theorem analyze_throws_only_beyond_depth:
  assumes "length (files e) < fuel"
  shows "\<exists>r st'. analyze fuel e cfg st filePath = Some (r, st')
           \<and> (isl r \<longleftrightarrow> exceeds 0 (maxDepth cfg))
           \<and> (\<not> exceeds 0 (maxDepth cfg) \<and> \<not> existsSync e (path_resolve (cwd e) [filePath])
                \<and> \<not> visitedAtOrAbove st (path_resolve (cwd e) [filePath]) 0 \<longrightarrow>
                r = Inr (notFoundNode
                           (path_relative (cwd e) (rootDir (rootDetected e st filePath))
                              (path_resolve (cwd e) [filePath]))
                           (path_resolve (cwd e) [filePath]) 0)
                \<and> fileExists (info (projr r)) = Some False
                \<and> error (info (projr r)) = Some ''File not found''
                \<and> dependencies (projr r) = []
                \<and> st' = rootDetected e st filePath)"
proof -
  let ?rp = "path_resolve (cwd e) [filePath]"
  let ?st0 = "rootDetected e st filePath"
  from assms obtain k where k: "fuel = Suc k" by (cases fuel) auto
  from extractDependencies_returns [OF assms] obtain r0 st' where
    run: "extractDependencies fuel e cfg ?st0 filePath 0 = Some (r0, st')"
    by blast
  show ?thesis
  proof (cases "exceeds 0 (maxDepth cfg)")
    case True
    then have "extractDependencies fuel e cfg ?st0 filePath 0 = Some (None, ?st0)"
      unfolding k by (rule extractDependencies_exceeds)
    then have "analyze fuel e cfg st filePath = Some (Inl CouldNotAnalyze, ?st0)"
      by (simp only: analyze_rootDetected option.case prod.case)
    with True show ?thesis by simp
  next
    case False
    from extractDependencies_node [OF False run] obtain tree where r0: "r0 = Some tree" by auto
    with run have res: "analyze fuel e cfg st filePath = Some (Inr tree, st')"
      by (simp only: analyze_rootDetected option.case prod.case)
    have missing: "tree = notFoundNode (path_relative (cwd e) (rootDir ?st0) ?rp) ?rp 0 \<and> st' = ?st0"
      if "\<not> existsSync e ?rp" "\<not> visitedAtOrAbove st ?rp 0"
    proof -
      from that(2) have "\<not> visitedAtOrAbove ?st0 ?rp 0"
        by (simp add: visitedAtOrAbove_table [OF visited_rootDetected])
      from extractDependencies_missing [OF False this that(1), of k] run r0 show ?thesis
        by (auto simp: k)
    qed
    have nf: "fileExists (info (notFoundNode rel p 0)) = Some False"
      "error (info (notFoundNode rel p 0)) = Some ''File not found''"
      "dependencies (notFoundNode rel p 0) = []" for rel p
      by (simp_all add: notFoundNode_def emptyInfo_def)
    from res False missing nf show ?thesis by auto
  qed
qed

text \<open>
  In the example project, with no depth limit: \<open>gone.ts\<close> is not on disk, and \<open>analyze\<close>
  returns the node for a file not found.
\<close>

theorem analyze_throws_only_beyond_depth_witness:
  "length (files (host project)) < 11
   \<and> \<not> exceeds 0 (maxDepth (mkConfig (settings None False)))
   \<and> \<not> existsSync (host project) (path_resolve (cwd (host project)) [''/p/gone.ts''])
   \<and> analyze 11 (host project) (mkConfig (settings None False))
         (newExtractor (host project) (settings None False)) ''/p/gone.ts''
       = Some (Inr (notFoundNode ''gone.ts'' ''/p/gone.ts'' 0),
               newExtractor (host project) (settings None False))"
proof -
  let ?cfg = "mkConfig (settings None False)"
  let ?st = "newExtractor (host project) (settings None False)"
  have len: "length (files (host project)) < 11" by (simp add: host_def project_def)
  have lim: "\<not> exceeds 0 (maxDepth ?cfg)" by (simp add: exceeds_def cfg_fields)
  have ex: "\<not> existsSync (host project) (path_resolve (cwd (host project)) [''/p/gone.ts''])"
    by (simp add: host_cwd resolved_paths project_exists)
  have nv: "\<not> visitedAtOrAbove ?st (path_resolve (cwd (host project)) [''/p/gone.ts'']) 0"
    by (simp add: fresh_extractor visitedAtOrAbove_def)
  have root: "rootDetected (host project) ?st ''/p/gone.ts'' = ?st"
    by (simp add: rootDetected_def fresh_extractor host_cwd)
  have rel: "path_relative (cwd (host project)) (rootDir ?st) ''/p/gone.ts'' = ''gone.ts''"
    "path_resolve (cwd (host project)) [''/p/gone.ts''] = ''/p/gone.ts''"
    by (simp_all add: fresh_extractor host_cwd resolved_paths relative_paths)
  from analyze_throws_only_beyond_depth [OF len, of ?cfg ?st "''/p/gone.ts''"] lim ex nv
  have "analyze 11 (host project) ?cfg ?st ''/p/gone.ts''
          = Some (Inr (notFoundNode
                         (path_relative (cwd (host project))
                            (rootDir (rootDetected (host project) ?st ''/p/gone.ts''))
                            (path_resolve (cwd (host project)) [''/p/gone.ts'']))
                         (path_resolve (cwd (host project)) [''/p/gone.ts'']) 0),
                  rootDetected (host project) ?st ''/p/gone.ts'')"
    by auto
  then have "analyze 11 (host project) ?cfg ?st ''/p/gone.ts''
          = Some (Inr (notFoundNode ''gone.ts'' ''/p/gone.ts'' 0), ?st)"
    by (simp only: root rel)
  with len lim ex show ?thesis by blast
qed

text \<open>
  Against the specification as it is written, in both directions. The root file \<open>gone.ts\<close> does
  not exist, and \<open>analyze\<close> returns a tree, the node for a file not found. The root file
  \<open>r.ts\<close> exists, and with the maximum depth \<open>-1\<close> \<open>analyze\<close> throws.
\<close>

theorem analyze_missing_root_counterexample:
  "\<not> existsSync (host project) ''/p/gone.ts''
   \<and> analyze (Suc 0) (host project) (mkConfig (settings None False))
         (newExtractor (host project) (settings None False)) ''/p/gone.ts''
       = Some (Inr (notFoundNode ''gone.ts'' ''/p/gone.ts'' 0),
               newExtractor (host project) (settings None False))
   \<and> existsSync (host project) ''/p/r.ts''
   \<and> analyze (Suc 0) (host project) (mkConfig (settings (Some (Finite (- 1))) False))
         (newExtractor (host project) (settings (Some (Finite (- 1))) False)) ''/p/r.ts''
       = Some (Inl CouldNotAnalyze,
               newExtractor (host project) (settings (Some (Finite (- 1))) False))"
  by (simp add: analyze_def walk_eval split del: if_split)

subsection \<open>External inclusion\<close>








subsection \<open>A path in the visited table at a greater depth\<close>

lemma afterFirstRun_fields:
  "rootDir afterFirstRun = ''/p''"
  "visited afterFirstRun = [(''/p/r.ts'', 0), (''/p/a.ts'', 1), (''/p/b.ts'', 2), (''/p/c.ts'', 3)]"
  "circularDeps afterFirstRun = [''r.ts -> c.ts'']"
  "unresolved afterFirstRun = []"
  by (simp_all add: afterFirstRun_def analyze_def walk_eval split del: if_split)

lemma visited_entry_after_loop:
  assumes "tableStep (Suc d) st1 st2" "map_of (visited st1) p = Some d"
  shows "map_of (visited st2) p = Some d"
proof -
  from assms(1) have "case map_of (visited st1) p of
             None \<Rightarrow> (\<forall>v. map_of (visited st2) p = Some v \<longrightarrow> Suc d \<le> v)
           | Some u \<Rightarrow> (\<exists>v. map_of (visited st2) p = Some v \<and> v \<le> u \<and> (v = u \<or> Suc d \<le> v))"
    by (simp add: tableStep_def)
  with assms(2) show ?thesis by auto
qed

text \<open>
  C4, as the code has it. The test at entry is \<open>existing && existing.depth <= currentDepth\<close>
  and nothing else looks at a path in the visited table at a greater depth: within the
  depth limit, the call goes on as for a path never seen. It returns a node that is not
  marked circular; for a file on disk the entry of the visited table is set to the
  current depth, which is less than it was, the imports are processed again, and the
  node has them as its dependencies; for a file not on disk it is the node for a file not
  found.
\<close>

theorem visited_deeper_is_reexpanded:
  assumes "map_of (visited st) (path_resolve (cwd e) [p]) = Some seen" and "d < seen"
      and "\<not> exceeds d (maxDepth cfg)" and "length (files e) < fuel"
  shows "\<exists>node st'. extractDependencies fuel e cfg st p d = Some (Some node, st')
           \<and> \<not> circular (info node)
           \<and> (existsSync e (path_resolve (cwd e) [p]) \<longrightarrow>
                map_of (visited st') (path_resolve (cwd e) [p]) = Some d
                \<and> (\<exists>k deps st2. fuel = Suc k
                      \<and> processImports (extractDependencies k e cfg) e cfg (path_resolve (cwd e) [p])
                           (path_relative (cwd e) (rootDir st) (path_resolve (cwd e) [p])) d
                           (parseImports e (fi_content (getFileInfo e cfg (path_resolve (cwd e) [p])))
                              (path_relative (cwd e) (rootDir st) (path_resolve (cwd e) [p])))
                           ([], st\<lparr> visited :=
                                      AList.update (path_resolve (cwd e) [p]) d (visited st) \<rparr>)
                         = Some (deps, st2)
                      \<and> node = fileResult
                                 (path_relative (cwd e) (rootDir st) (path_resolve (cwd e) [p]))
                                 (path_resolve (cwd e) [p]) d
                                 (getFileInfo e cfg (path_resolve (cwd e) [p]))
                                 (length (parseImports e
                                    (fi_content (getFileInfo e cfg (path_resolve (cwd e) [p])))
                                    (path_relative (cwd e) (rootDir st) (path_resolve (cwd e) [p]))))
                                 deps))
           \<and> (\<not> existsSync e (path_resolve (cwd e) [p]) \<longrightarrow>
                node = notFoundNode (path_relative (cwd e) (rootDir st) (path_resolve (cwd e) [p]))
                         (path_resolve (cwd e) [p]) d
                \<and> st' = st)"
proof -
  let ?rp = "path_resolve (cwd e) [p]"
  let ?rel = "path_relative (cwd e) (rootDir st) ?rp"
  let ?imports = "parseImports e (fi_content (getFileInfo e cfg ?rp)) ?rel"
  let ?st1 = "st\<lparr> visited := AList.update ?rp d (visited st) \<rparr>"
  from assms(4) obtain k where k: "fuel = Suc k" by (cases fuel) auto
  from assms(1,2) have nv: "\<not> visitedAtOrAbove st ?rp d" by (simp add: visitedAtOrAbove_def)
  show ?thesis
  proof (cases "existsSync e ?rp")
    case False
    from extractDependencies_missing [OF assms(3) nv False, of k]
    have "extractDependencies fuel e cfg st p d = Some (Some (notFoundNode ?rel ?rp d), st)"
      by (simp only: k)
    moreover have "\<not> circular (info (notFoundNode ?rel ?rp d))"
      by (simp add: notFoundNode_def emptyInfo_def)
    ultimately show ?thesis using False by simp
  next
    case True
    from extractDependencies_returns [OF assms(4)] obtain r st' where
      run: "extractDependencies fuel e cfg st p d = Some (r, st')" by blast
    with assms(3) nv True obtain deps st2 where
      loop: "processImports (extractDependencies k e cfg) e cfg ?rp ?rel d ?imports ([], ?st1)
               = Some (deps, st2)"
      and r: "r = Some (fileResult ?rel ?rp d (getFileInfo e cfg ?rp) (length ?imports) deps)"
      and st': "visited st' = visited st2"
      by (auto simp: k extractDependencies.simps Let_def split: option.splits)
    have "tableStep (Suc d) ?st1 st2"
      by (rule processImports_tableStep [OF _ loop]) (rule extractDependencies_tableStep)
    moreover have "map_of (visited ?st1) ?rp = Some d" by (simp add: update_conv')
    ultimately have "map_of (visited st2) ?rp = Some d" by (rule visited_entry_after_loop)
    with st' have entry: "map_of (visited st') ?rp = Some d" by simp
    have nc: "\<not> circular (info (fileResult ?rel ?rp d (getFileInfo e cfg ?rp) (length ?imports) deps))"
      by (simp add: fileResult_def emptyInfo_def)
    from run r entry nc loop k True show ?thesis by auto
  qed
qed

text \<open>
  After the run on \<open>r.ts\<close>, the file \<open>c.ts\<close> is in the visited table at depth 3. A call
  for it at depth 1 returns its node, and the table has it at depth 1.
\<close>

theorem visited_deeper_is_reexpanded_witness:
  "map_of (visited afterFirstRun) (path_resolve (cwd (host project)) [''/p/c.ts'']) = Some 3
   \<and> (1::nat) < 3
   \<and> \<not> exceeds 1 (maxDepth (mkConfig (settings None False)))
   \<and> length (files (host project)) < 11
   \<and> (\<exists>st'. extractDependencies 11 (host project) (mkConfig (settings None False))
               afterFirstRun ''/p/c.ts'' 1
             = Some (Some (fileResult ''c.ts'' ''/p/c.ts'' 1 (textInfo ''export const c = 1'') 0 []),
                     st')
           \<and> map_of (visited st') ''/p/c.ts'' = Some 1)"
proof -
  let ?cfg = "mkConfig (settings None False)"
  have rp: "path_resolve (cwd (host project)) [''/p/c.ts''] = ''/p/c.ts''"
    by (simp add: host_cwd resolved_paths)
  have seen: "map_of (visited afterFirstRun) (path_resolve (cwd (host project)) [''/p/c.ts'']) = Some 3"
    by (simp add: rp afterFirstRun_fields)
  have lim: "\<not> exceeds 1 (maxDepth ?cfg)" by (simp add: exceeds_def cfg_fields)
  have len: "length (files (host project)) < 11" by (simp add: host_def project_def)
  have ex: "existsSync (host project) (path_resolve (cwd (host project)) [''/p/c.ts''])"
    by (simp add: rp project_exists)
  have parts: "path_relative (cwd (host project)) (rootDir afterFirstRun) ''/p/c.ts'' = ''c.ts''"
    "getFileInfo (host project) ?cfg ''/p/c.ts'' = textInfo ''export const c = 1''"
    "parseImports (host project) (fi_content (textInfo ''export const c = 1'')) ''c.ts'' = []"
    by (simp_all add: afterFirstRun_fields host_cwd relative_paths project_info
        fi_content_textInfo project_imports)
  from visited_deeper_is_reexpanded [OF seen _ lim len] ex
  obtain node st' k deps st2 where
    run: "extractDependencies 11 (host project) ?cfg afterFirstRun ''/p/c.ts'' 1
            = Some (Some node, st')"
    and entry: "map_of (visited st') (path_resolve (cwd (host project)) [''/p/c.ts'']) = Some 1"
    and loop: "processImports (extractDependencies k (host project) ?cfg) (host project) ?cfg
                 (path_resolve (cwd (host project)) [''/p/c.ts''])
                 (path_relative (cwd (host project)) (rootDir afterFirstRun)
                    (path_resolve (cwd (host project)) [''/p/c.ts''])) 1
                 (parseImports (host project)
                    (fi_content (getFileInfo (host project) ?cfg
                                   (path_resolve (cwd (host project)) [''/p/c.ts''])))
                    (path_relative (cwd (host project)) (rootDir afterFirstRun)
                       (path_resolve (cwd (host project)) [''/p/c.ts''])))
                 ([], afterFirstRun\<lparr> visited :=
                        AList.update (path_resolve (cwd (host project)) [''/p/c.ts'']) 1
                          (visited afterFirstRun) \<rparr>)
               = Some (deps, st2)"
    and node: "node = fileResult
                 (path_relative (cwd (host project)) (rootDir afterFirstRun)
                    (path_resolve (cwd (host project)) [''/p/c.ts'']))
                 (path_resolve (cwd (host project)) [''/p/c.ts'']) 1
                 (getFileInfo (host project) ?cfg (path_resolve (cwd (host project)) [''/p/c.ts'']))
                 (length (parseImports (host project)
                    (fi_content (getFileInfo (host project) ?cfg
                                   (path_resolve (cwd (host project)) [''/p/c.ts''])))
                    (path_relative (cwd (host project)) (rootDir afterFirstRun)
                       (path_resolve (cwd (host project)) [''/p/c.ts'']))))
                 deps"
    by auto
  from loop have "deps = []" by (simp add: rp parts)
  with node have "node = fileResult ''c.ts'' ''/p/c.ts'' 1 (textInfo ''export const c = 1'') 0 []"
    by (simp add: rp parts)
  with run entry have "\<exists>st'. extractDependencies 11 (host project) ?cfg afterFirstRun ''/p/c.ts'' 1
             = Some (Some (fileResult ''c.ts'' ''/p/c.ts'' 1 (textInfo ''export const c = 1'') 0 []),
                     st')
           \<and> map_of (visited st') ''/p/c.ts'' = Some 1"
    by (auto simp: rp)
  with seen lim len show ?thesis by simp
qed

text \<open>
  Against the specification as it is written, on the extractor the run on \<open>r.ts\<close> has left, where
  \<open>c.ts\<close> is at depth 3 and \<open>b.ts\<close> at depth 2. The call for \<open>c.ts\<close> at depth 1 returns
  the node of \<open>c.ts\<close> and lowers its entry to 1. The run of \<open>analyze\<close> on \<open>b.ts\<close>, at depth
  0, returns the node of \<open>b.ts\<close> with its import expanded again, here to a circular leaf
  for \<open>c.ts\<close>, and lowers the entry of \<open>b.ts\<close> to 0.
\<close>

theorem visited_deeper_counterexample:
  "map_of (visited afterFirstRun) ''/p/c.ts'' = Some 3
   \<and> map_of (visited afterFirstRun) ''/p/b.ts'' = Some 2
   \<and> map_option fst
        (extractDependencies (Suc 0) (host project) (mkConfig (settings None False))
           afterFirstRun ''/p/c.ts'' 1)
       = Some (Some (fileResult ''c.ts'' ''/p/c.ts'' 1 (textInfo ''export const c = 1'') 0 []))
   \<and> map_option (visited \<circ> snd)
        (extractDependencies (Suc 0) (host project) (mkConfig (settings None False))
           afterFirstRun ''/p/c.ts'' 1)
       = Some [(''/p/r.ts'', 0), (''/p/a.ts'', 1), (''/p/b.ts'', 2), (''/p/c.ts'', 1)]
   \<and> map_option fst
        (analyze (Suc 0) (host project) (mkConfig (settings None False)) afterFirstRun ''/p/b.ts'')
       = Some (Inr (fileResult ''b.ts'' ''/p/b.ts'' 0 (textInfo (importLines [''./c''])) 1
                      [circularDependency ''c.ts'' ''/p/c.ts'' ''./c'' 1]))
   \<and> map_option (visited \<circ> snd)
        (analyze (Suc 0) (host project) (mkConfig (settings None False)) afterFirstRun ''/p/b.ts'')
       = Some [(''/p/r.ts'', 0), (''/p/a.ts'', 1), (''/p/b.ts'', 0), (''/p/c.ts'', 3)]"
proof -
  have 1: "map_option fst
        (extractDependencies (Suc 0) (host project) (mkConfig (settings None False))
           afterFirstRun ''/p/c.ts'' 1)
       = Some (Some (fileResult ''c.ts'' ''/p/c.ts'' 1 (textInfo ''export const c = 1'') 0 []))"
    "map_option (visited \<circ> snd)
        (extractDependencies (Suc 0) (host project) (mkConfig (settings None False))
           afterFirstRun ''/p/c.ts'' 1)
       = Some [(''/p/r.ts'', 0), (''/p/a.ts'', 1), (''/p/b.ts'', 2), (''/p/c.ts'', 1)]"
    by (simp_all add: walk_eval afterFirstRun_fields split del: if_split)
  have 2: "map_option fst
        (analyze (Suc 0) (host project) (mkConfig (settings None False)) afterFirstRun ''/p/b.ts'')
       = Some (Inr (fileResult ''b.ts'' ''/p/b.ts'' 0 (textInfo (importLines [''./c''])) 1
                      [circularDependency ''c.ts'' ''/p/c.ts'' ''./c'' 1]))"
    "map_option (visited \<circ> snd)
        (analyze (Suc 0) (host project) (mkConfig (settings None False)) afterFirstRun ''/p/b.ts'')
       = Some [(''/p/r.ts'', 0), (''/p/a.ts'', 1), (''/p/b.ts'', 0), (''/p/c.ts'', 3)]"
    by (simp_all add: analyze_def walk_eval afterFirstRun_fields split del: if_split)
  from 1 2 show ?thesis by (simp add: afterFirstRun_fields)
qed

subsection \<open>Nodes marked circular\<close>















end
